theory Spec2Isabelle
  imports Main
begin

section \<open>Python values, native types and exceptions\<close>

text \<open>
  The runtime of \<^verbatim>\<open>pflow/runtime.py\<close> is a Python 2 class whose methods mutate three
  dictionaries and raise exceptions. A method is modelled as a function from the runtime
  state to a pair of an outcome and the state after the call. The state is returned on
  failure too: a Python exception does not undo the assignments made before it.
\<close>

datatype error =
    ValueError string
  | KeyError string
  | TypeError string
  | AttributeError string
  | LookupError string
  | DuplicateNameError string
  | ConflictError string
  | StateError string

text \<open>Literal values carried by initial packets and port defaults (JSON scalars).\<close>

datatype pyvalue = VNone | VBool bool | VInt int | VStr string

text \<open>
  The native types that may occur in a port's \<^verbatim>\<open>allowed_types\<close>: the eleven keys of
  \<^verbatim>\<open>Runtime._type_map\<close> and any other type, identified by its name.
\<close>

datatype pytype =
    T_str | T_unicode | T_bool | T_int | T_float | T_complex
  | T_dict | T_list | T_tuple | T_set | T_frozenset
  | T_other string

text \<open>\<^verbatim>\<open>Runtime._type_map\<close> (lines 35-51), a dictionary from native types to protocol types.\<close>

fun type_map :: "pytype \<Rightarrow> string option" where
  "type_map T_str = Some ''string''"
| "type_map T_unicode = Some ''string''"
| "type_map T_bool = Some ''boolean''"
| "type_map T_int = Some ''int''"
| "type_map T_float = Some ''number''"
| "type_map T_complex = Some ''number''"
| "type_map T_dict = Some ''object''"
| "type_map T_list = Some ''array''"
| "type_map T_tuple = Some ''array''"
| "type_map T_set = Some ''array''"
| "type_map T_frozenset = Some ''array''"
| "type_map (T_other n) = None"

text \<open>
  The closed enumeration of port-type categories as the specification words it
  (design notes: string, boolean, integer, number, object, array, any).
\<close>

definition spec_categories :: "string set" where
  "spec_categories =
     {''string'', ''boolean'', ''integer'', ''number'', ''object'', ''array'', ''any''}"

text \<open>The same enumeration with the protocol's name \<^verbatim>\<open>int\<close> for integers.\<close>

definition protocol_categories :: "string set" where
  "protocol_categories =
     {''string'', ''boolean'', ''int'', ''number'', ''object'', ''array'', ''any''}"


section \<open>Ports, components and component classes\<close>

text \<open>
  Modelled from the spec: the classes \<^verbatim>\<open>Port\<close>, \<^verbatim>\<open>Component\<close> and \<^verbatim>\<open>Graph\<close> of
  \<^verbatim>\<open>pflow/core.py\<close> are not part of the sources at hand. A port has the attributes of the
  data model (name, array flag, optional flag, allowed types, description, default) and
  its attachment state: the live connections, each named by the node and port at the other
  end, and the initial packet. The attributes are those the runtime reads
  (\<^verbatim>\<open>name\<close>, \<^verbatim>\<open>allowed_types\<close>, \<^verbatim>\<open>description\<close>, \<^verbatim>\<open>optional\<close>, \<^verbatim>\<open>default\<close>, and the
  \<^verbatim>\<open>isinstance\<close> test against the array port classes). \<^verbatim>\<open>allowed_types\<close> is listed in
  iteration order.
\<close>

type_synonym endpoint = "string \<times> string"

record port_decl =
  p_name :: string
  p_array :: bool
  p_optional :: bool
  p_allowed_types :: "pytype list"
  p_description :: "string option"
  p_default :: pyvalue

record port = port_decl +
  p_peers :: "endpoint list"
  p_iip :: "pyvalue option"

text \<open>
  Modelled from the spec: the constructor of a port (\<^verbatim>\<open>core.Port\<close> is missing). A port is
  created with its owning component and has no attachment then.
\<close>

definition new_port :: "port_decl \<Rightarrow> port" where
  "new_port d =
     \<lparr>p_name = p_name d, p_array = p_array d, p_optional = p_optional d,
      p_allowed_types = p_allowed_types d, p_description = p_description d,
      p_default = p_default d, p_peers = [], p_iip = None\<rparr>"

record component =
  c_name :: string
  c_inputs :: "port list"
  c_outputs :: "port list"

text \<open>
  A component class, as far as the runtime inspects it: \<^verbatim>\<open>__module__\<close>, \<^verbatim>\<open>__name__\<close>, the
  results of \<^verbatim>\<open>issubclass(cls, core.Component)\<close> and \<^verbatim>\<open>issubclass(cls, core.Graph)\<close>,
  whether it is abstract (\<^verbatim>\<open>register_module\<close> asks \<^verbatim>\<open>inspect.isabstract\<close>; calling an
  abstract class raises \<^verbatim>\<open>TypeError\<close>), its docstring after
  \<^verbatim>\<open>textwrap.dedent(...).strip()\<close> (\<open>None\<close> when there is none), and the ports its
  instances are created with.
\<close>

record component_class =
  cls_module :: string
  cls_name :: string
  cls_is_component :: bool
  cls_is_graph :: bool
  cls_is_abstract :: bool
  cls_doc :: "string option"
  cls_inputs :: "port_decl list"
  cls_outputs :: "port_decl list"

text \<open>
  Modelled from the spec: the constructor call \<^verbatim>\<open>component_class(name)\<close> of a component
  class (\<^verbatim>\<open>core.Component\<close> is missing). A component is created with its name and its
  ports; an abstract class cannot be instantiated.
\<close>

definition instantiate :: "component_class \<Rightarrow> string \<Rightarrow> error + component" where
  "instantiate component_class name =
     (if cls_is_abstract component_class
      then Inl (TypeError (''Can't instantiate abstract class '' @ cls_name component_class))
      else Inr \<lparr>c_name = name,
                c_inputs = map new_port (cls_inputs component_class),
                c_outputs = map new_port (cls_outputs component_class)\<rparr>)"


section \<open>Component specs\<close>

record inport_spec =
  ip_id :: string
  ip_type :: string
  ip_description :: string
  ip_addressable :: bool
  ip_required :: bool
  ip_default :: pyvalue

record outport_spec =
  op_id :: string
  op_type :: string
  op_description :: string
  op_addressable :: bool
  op_required :: bool

record component_spec =
  cs_name :: string
  cs_description :: string
  cs_subgraph :: bool
  cs_inPorts :: "inport_spec list"
  cs_outPorts :: "outport_spec list"

text \<open>\<^verbatim>\<open>get_port_type\<close> (lines 173-184), the closure inside \<^verbatim>\<open>_create_component_spec\<close>.\<close>

definition get_port_type :: "port \<Rightarrow> string \<Rightarrow> string" where
  "get_port_type port default_type =
     (if length (p_allowed_types port) = 0 then default_type
      else if length (p_allowed_types port) = 1 then
        (let first_type = hd (p_allowed_types port);
             mapped_type = (case type_map first_type of
                              Some c \<Rightarrow> c
                            | None \<Rightarrow> default_type)
         in mapped_type)
      else default_type)"

text \<open>\<^verbatim>\<open>x or ''\<close> for an optional string.\<close>

definition or_empty :: "string option \<Rightarrow> string" where
  "or_empty s = (case s of None \<Rightarrow> [] | Some t \<Rightarrow> t)"

definition inport_entry :: "port \<Rightarrow> inport_spec" where
  "inport_entry inport =
     \<lparr>ip_id = p_name inport,
      ip_type = get_port_type inport ''any'',
      ip_description = or_empty (p_description inport),
      ip_addressable = p_array inport,
      ip_required = (\<not> p_optional inport),
      ip_default = p_default inport\<rparr>"

definition outport_entry :: "port \<Rightarrow> outport_spec" where
  "outport_entry outport =
     \<lparr>op_id = p_name outport,
      op_type = get_port_type outport ''any'',
      op_description = or_empty (p_description outport),
      op_addressable = p_array outport,
      op_required = (\<not> p_optional outport)\<rparr>"

text \<open>\<^verbatim>\<open>Runtime._create_component_spec\<close> (lines 167-213).\<close>

definition create_component_spec ::
  "string \<Rightarrow> component_class \<Rightarrow> error + component_spec" where
  "create_component_spec component_class_name component_class =
     (if \<not> cls_is_component component_class
      then Inl (ValueError ''component_class must be a Component'')
      else case instantiate component_class ''FAKE_NAME'' of
             Inl e \<Rightarrow> Inl e
           | Inr component \<Rightarrow>
               Inr \<lparr>cs_name = component_class_name,
                    cs_description = or_empty (cls_doc component_class),
                    cs_subgraph = cls_is_graph component_class,
                    cs_inPorts = map inport_entry (c_inputs component),
                    cs_outPorts = map outport_entry (c_outputs component)\<rparr>)"


section \<open>Graphs\<close>

text \<open>
  Modelled from the spec: \<^verbatim>\<open>core.Graph\<close> and the port query \<^verbatim>\<open>is_connected\<close> are
  missing from the sources. A graph is created empty and holds its components in a stable
  order. Every object that the runtime creates gets an identity (\<open>g_oid\<close>, \<open>ex_oid\<close>) from
  a counter of the runtime state, so that two instances can be told apart.
  The contracts are those of the specification's section 4.3:
  \<^item> \<^verbatim>\<open>add_component\<close> fails with DuplicateNameError on a name collision;
  \<^item> \<^verbatim>\<open>remove_component\<close> fails with LookupError if the name is absent and detaches the
    connections of the removed component's ports;
  \<^item> \<^verbatim>\<open>connect\<close> fails with LookupError if a port's component is absent and with
    ConflictError if a non-array port is already attached (connection or initial packet);
  \<^item> \<^verbatim>\<open>disconnect\<close> fails with LookupError if the port has no attachment and removes the
    connections and the initial packet of the port;
  \<^item> \<^verbatim>\<open>set_initial_packet\<close> and \<^verbatim>\<open>unset_initial_packet\<close> are exclusive with live
    connections: setting a packet on a port that carries a live connection fails with
    ConflictError;
  \<^item> \<^verbatim>\<open>is_connected\<close> tells whether a live connection is attached to the port.
  The slots of an array port are not told apart: the runtime never passes an index.
\<close>

record graph =
  g_oid :: nat
  g_id :: string
  g_components :: "component list"

text \<open>
  Modelled from the spec: \<^verbatim>\<open>core.Graph(graph_id, initialize=False)\<close> (the class is
  missing); a graph is created empty.
\<close>

definition Graph_new :: "nat \<Rightarrow> string \<Rightarrow> graph" where
  "Graph_new oid graph_id = \<lparr>g_oid = oid, g_id = graph_id, g_components = []\<rparr>"

text \<open>A port object is denoted by its direction, the name of its component and its name.\<close>

datatype port_ref = InputPort string string | OutputPort string string

fun is_input :: "port_ref \<Rightarrow> bool" where
  "is_input (InputPort n p) = True"
| "is_input (OutputPort n p) = False"

fun endpoint_of :: "port_ref \<Rightarrow> endpoint" where
  "endpoint_of (InputPort n p) = (n, p)"
| "endpoint_of (OutputPort n p) = (n, p)"

text \<open>\<^verbatim>\<open>Runtime._find_component_by_name\<close> (lines 274-277); \<open>None\<close> is Python's \<^verbatim>\<open>None\<close>.\<close>

definition find_component_by_name :: "graph \<Rightarrow> string \<Rightarrow> component option" where
  "find_component_by_name graph component_name =
     find (\<lambda>component. c_name component = component_name) (g_components graph)"

definition lookup_port :: "port list \<Rightarrow> string \<Rightarrow> port option" where
  "lookup_port ports name = find (\<lambda>p. p_name p = name) ports"

definition get_port :: "graph \<Rightarrow> port_ref \<Rightarrow> port option" where
  "get_port graph ref =
     (case ref of
        InputPort n p \<Rightarrow>
          (case find_component_by_name graph n of
             None \<Rightarrow> None
           | Some c \<Rightarrow> lookup_port (c_inputs c) p)
      | OutputPort n p \<Rightarrow>
          (case find_component_by_name graph n of
             None \<Rightarrow> None
           | Some c \<Rightarrow> lookup_port (c_outputs c) p))"

definition apply_ports :: "(port_ref \<Rightarrow> port \<Rightarrow> port) \<Rightarrow> graph \<Rightarrow> graph" where
  "apply_ports h graph =
     graph\<lparr>g_components :=
       map (\<lambda>c. c\<lparr>c_inputs := map (\<lambda>p. h (InputPort (c_name c) (p_name p)) p) (c_inputs c),
                  c_outputs := map (\<lambda>p. h (OutputPort (c_name c) (p_name p)) p) (c_outputs c)\<rparr>)
           (g_components graph)\<rparr>"

text \<open>
  Modelled from the spec: \<^verbatim>\<open>Port.is_connected\<close> (missing), the query made before a
  connection is detached: the port has a live connection.
\<close>

definition is_connected :: "port \<Rightarrow> bool" where
  "is_connected port = (p_peers port \<noteq> [])"

text \<open>
  Modelled from the spec: a port's attachment is a connection or an initial packet
  (\<^verbatim>\<open>core.Port\<close> is missing).
\<close>

definition has_attachment :: "port \<Rightarrow> bool" where
  "has_attachment port = (p_peers port \<noteq> [] \<or> p_iip port \<noteq> None)"

text \<open>
  Modelled from the spec: \<^verbatim>\<open>Graph.add_component\<close> (missing) fails with
  DuplicateNameError on a name collision.
\<close>

definition Graph_add_component :: "graph \<Rightarrow> component \<Rightarrow> error + graph" where
  "Graph_add_component graph component =
     (if find_component_by_name graph (c_name component) \<noteq> None
      then Inl (DuplicateNameError (c_name component))
      else Inr (graph\<lparr>g_components := g_components graph @ [component]\<rparr>))"

text \<open>
  Modelled from the spec: \<^verbatim>\<open>Graph.remove_component\<close> (missing) fails with LookupError if
  the component is absent; it removes the component and every connection to its ports.
\<close>

definition Graph_remove_component :: "graph \<Rightarrow> string \<Rightarrow> error + graph" where
  "Graph_remove_component graph name =
     (if find_component_by_name graph name = None
      then Inl (LookupError name)
      else Inr (apply_ports
                  (\<lambda>r q. q\<lparr>p_peers := filter (\<lambda>e. fst e \<noteq> name) (p_peers q)\<rparr>)
                  (graph\<lparr>g_components :=
                     filter (\<lambda>c. c_name c \<noteq> name) (g_components graph)\<rparr>)))"

text \<open>
  Modelled from the spec: \<^verbatim>\<open>Graph.connect\<close> (missing) fails with LookupError if a port's
  component is absent from the graph and with ConflictError if a non-array port is already
  attached, by a connection or an initial packet.
\<close>

definition Graph_connect :: "graph \<Rightarrow> port_ref \<Rightarrow> port_ref \<Rightarrow> error + graph" where
  "Graph_connect graph source target =
     (case get_port graph source of
        None \<Rightarrow> Inl (LookupError (fst (endpoint_of source)))
      | Some source_port \<Rightarrow>
          (case get_port graph target of
             None \<Rightarrow> Inl (LookupError (fst (endpoint_of target)))
           | Some target_port \<Rightarrow>
               if (\<not> p_array target_port \<and> has_attachment target_port)
                  \<or> (\<not> p_array source_port \<and> has_attachment source_port)
               then Inl (ConflictError (snd (endpoint_of target)))
               else Inr (apply_ports
                           (\<lambda>r q. if r = source
                                  then q\<lparr>p_peers := p_peers q @ [endpoint_of target]\<rparr>
                                  else if r = target
                                  then q\<lparr>p_peers := p_peers q @ [endpoint_of source]\<rparr>
                                  else q)
                           graph)))"

text \<open>
  Modelled from the spec: \<^verbatim>\<open>Graph.disconnect\<close> (missing) fails with LookupError if the
  port has no attachment; it removes the connections of the port, at both ends, and its
  initial packet.
\<close>

definition Graph_disconnect :: "graph \<Rightarrow> port_ref \<Rightarrow> error + graph" where
  "Graph_disconnect graph ref =
     (case get_port graph ref of
        None \<Rightarrow> Inl (LookupError (fst (endpoint_of ref)))
      | Some port \<Rightarrow>
          if \<not> has_attachment port
          then Inl (LookupError (snd (endpoint_of ref)))
          else Inr (apply_ports
                      (\<lambda>r q. if r = ref
                             then q\<lparr>p_peers := [], p_iip := None\<rparr>
                             else if is_input r \<noteq> is_input ref
                             then q\<lparr>p_peers := removeAll (endpoint_of ref) (p_peers q)\<rparr>
                             else q)
                      graph))"

text \<open>
  Modelled from the spec: \<^verbatim>\<open>Graph.set_initial_packet\<close> (missing) is exclusive with live
  connections: on a port that carries one it fails with ConflictError, otherwise it binds
  the value to the port.
\<close>

definition Graph_set_initial_packet :: "graph \<Rightarrow> port_ref \<Rightarrow> pyvalue \<Rightarrow> error + graph" where
  "Graph_set_initial_packet graph ref v =
     (case get_port graph ref of
        None \<Rightarrow> Inl (LookupError (fst (endpoint_of ref)))
      | Some port \<Rightarrow>
          if is_connected port
          then Inl (ConflictError (snd (endpoint_of ref)))
          else Inr (apply_ports (\<lambda>r q. if r = ref then q\<lparr>p_iip := Some v\<rparr> else q) graph))"

text \<open>
  Modelled from the spec: \<^verbatim>\<open>Graph.unset_initial_packet\<close> (missing) removes the initial
  packet of the port.
\<close>

definition Graph_unset_initial_packet :: "graph \<Rightarrow> port_ref \<Rightarrow> error + graph" where
  "Graph_unset_initial_packet graph ref =
     (case get_port graph ref of
        None \<Rightarrow> Inl (LookupError (fst (endpoint_of ref)))
      | Some port \<Rightarrow>
          Inr (apply_ports (\<lambda>r q. if r = ref then q\<lparr>p_iip := None\<rparr> else q) graph))"


section \<open>Executors\<close>

text \<open>
  Modelled from the spec: the executor class (\<^verbatim>\<open>SingleProcessGraphExecutor\<close>) is missing
  from the sources. Following section 4.4, an executor is idle when constructed,
  \<^verbatim>\<open>execute\<close> takes it from idle to running and fails with StateError if it is already
  running, \<^verbatim>\<open>stop\<close> takes it from running to stopped and fails with StateError if it is
  not running, and stopped is terminal. \<^verbatim>\<open>is_running\<close> is false before the first
  \<^verbatim>\<open>execute\<close> and after \<^verbatim>\<open>stop\<close>. The executor refers to the graph object it was
  constructed with (\<open>ex_graph\<close> is that object's identity).
\<close>

datatype exec_state = Idle | Running | Stopped

record executor =
  ex_oid :: nat
  ex_graph :: nat
  ex_state :: exec_state

text \<open>
  Modelled from the spec: the constructor \<^verbatim>\<open>executor_class(graph)\<close> (the executor class is
  missing) gives an idle executor bound to the graph.
\<close>

definition Executor_new :: "nat \<Rightarrow> graph \<Rightarrow> executor" where
  "Executor_new oid graph = \<lparr>ex_oid = oid, ex_graph = g_oid graph, ex_state = Idle\<rparr>"

text \<open>
  Modelled from the spec: \<^verbatim>\<open>is_running()\<close> of the missing executor class, a pure query,
  false before the first \<^verbatim>\<open>execute()\<close> and after \<^verbatim>\<open>stop()\<close>.
\<close>

definition is_running :: "executor \<Rightarrow> bool" where
  "is_running executor = (ex_state executor = Running)"

text \<open>
  Modelled from the spec: \<^verbatim>\<open>execute()\<close> of the missing executor class takes an idle
  executor to running and fails with StateError if it is already running; a stopped
  executor is terminal.
\<close>

definition execute :: "executor \<Rightarrow> error + executor" where
  "execute executor =
     (case ex_state executor of
        Idle \<Rightarrow> Inr (executor\<lparr>ex_state := Running\<rparr>)
      | Running \<Rightarrow> Inl (StateError ''already running'')
      | Stopped \<Rightarrow> Inl (StateError ''stopped''))"

text \<open>
  Modelled from the spec: \<^verbatim>\<open>stop()\<close> of the missing executor class takes a running
  executor to stopped and fails with StateError if it is not running.
\<close>

definition Executor_stop :: "executor \<Rightarrow> error + executor" where
  "Executor_stop executor =
     (if ex_state executor = Running
      then Inr (executor\<lparr>ex_state := Stopped\<rparr>)
      else Inl (StateError ''not running''))"


section \<open>The runtime\<close>

text \<open>
  \<^verbatim>\<open>Runtime.__init__\<close> (lines 53-63): the dictionaries \<^verbatim>\<open>_components\<close>, \<^verbatim>\<open>_graphs\<close> and
  \<^verbatim>\<open>_executors\<close>. An entry of \<^verbatim>\<open>_components\<close> is the dictionary with the keys
  \<^verbatim>\<open>class\<close> and \<^verbatim>\<open>spec\<close>. Two fields are added for the verification: \<open>next_oid\<close>, the
  identity of the next object constructed, and \<open>disconnect_calls\<close>, the history of the
  invocations of \<^verbatim>\<open>graph.disconnect\<close>, each with the graph as it was at the call and the
  port passed.
\<close>

record entry =
  ce_class :: component_class
  ce_spec :: component_spec

type_synonym calls = "(graph \<times> port_ref) list"

record runtime =
  components :: "string \<rightharpoonup> entry"
  graphs :: "string \<rightharpoonup> graph"
  executors :: "string \<rightharpoonup> executor"
  next_oid :: nat
  disconnect_calls :: calls

definition Runtime_init :: runtime where
  "Runtime_init =
     \<lparr>components = Map.empty, graphs = Map.empty, executors = Map.empty,
      next_oid = 0, disconnect_calls = []\<rparr>"

text \<open>\<^verbatim>\<open>Runtime._long_class_name\<close> (lines 128-130).\<close>

definition long_class_name :: "component_class \<Rightarrow> string" where
  "long_class_name component_class =
     cls_module component_class @ ''/'' @ cls_name component_class"

text \<open>
  The argument of \<^verbatim>\<open>register_component\<close> is whatever object the caller passes: a class,
  or an object that is not a class (a string, an instance, \<^verbatim>\<open>None\<close>), identified here
  by a string.
\<close>

datatype pyobject = Class component_class | NonClass string

text \<open>
  \<^verbatim>\<open>Runtime.register_component\<close> (lines 102-126). The first statement evaluates
  \<^verbatim>\<open>issubclass(component_class, core.Component)\<close> (line 110); the builtin raises
  \<^verbatim>\<open>TypeError\<close> when its first argument is not a class, before the \<^verbatim>\<open>raise ValueError\<close>
  of line 111 can be reached.
\<close>

definition register_component ::
  "runtime \<Rightarrow> pyobject \<Rightarrow> bool \<Rightarrow> (error + unit) \<times> runtime" where
  "register_component rt component_class overwrite =
     (case component_class of
        NonClass r \<Rightarrow> (Inl (TypeError ''issubclass() arg 1 must be a class''), rt)
      | Class cls \<Rightarrow>
          if \<not> cls_is_component cls
          then (Inl (ValueError
                      ''component_class must be a class that inherits from Component''),
                rt)
          else
            let long_name = long_class_name cls in
            if long_name \<in> dom (components rt) \<and> \<not> overwrite
            then (Inl (ValueError (''Component '' @ long_name @ '' already registered'')), rt)
            else
              (case create_component_spec long_name cls of
                 Inl e \<Rightarrow> (Inl e, rt)
               | Inr spec \<Rightarrow>
                   (Inr (),
                    rt\<lparr>components := (components rt)
                         (long_name \<mapsto> \<lparr>ce_class = cls, ce_spec = spec\<rparr>)\<rparr>)))"

text \<open>\<^verbatim>\<open>Runtime.is_started\<close> (lines 215-219).\<close>

definition is_started :: "runtime \<Rightarrow> string \<Rightarrow> bool \<times> runtime" where
  "is_started rt graph_id =
     (case executors rt graph_id of
        None \<Rightarrow> (False, rt)
      | Some executor \<Rightarrow> (is_running executor, rt))"

text \<open>
  \<^verbatim>\<open>Runtime.start\<close> (lines 221-241). \<^verbatim>\<open>executor.execute()\<close> changes the executor object
  that the table refers to.
\<close>

definition start :: "runtime \<Rightarrow> string \<Rightarrow> (error + unit) \<times> runtime" where
  "start rt graph_id =
     (case graphs rt graph_id of
        None \<Rightarrow> (Inl (KeyError graph_id), rt)
      | Some graph \<Rightarrow>
          let (executor, rt1) =
                (case executors rt graph_id of
                   None \<Rightarrow>
                     (let executor = Executor_new (next_oid rt) graph
                      in (executor,
                          rt\<lparr>executors := (executors rt)(graph_id \<mapsto> executor),
                             next_oid := Suc (next_oid rt)\<rparr>))
                 | Some executor \<Rightarrow> (executor, rt))
          in if is_running executor
             then (Inl (ValueError (''Graph '' @ graph_id @ '' is already started'')), rt1)
             else (case execute executor of
                     Inl e \<Rightarrow> (Inl e, rt1)
                   | Inr executor' \<Rightarrow>
                       (Inr (), rt1\<lparr>executors := (executors rt1)(graph_id \<mapsto> executor')\<rparr>)))"

text \<open>\<^verbatim>\<open>Runtime.stop\<close> (lines 245-255).\<close>

definition stop :: "runtime \<Rightarrow> string \<Rightarrow> (error + unit) \<times> runtime" where
  "stop rt graph_id =
     (case executors rt graph_id of
        None \<Rightarrow> (Inl (ValueError (''Invalid graph: '' @ graph_id)), rt)
      | Some executor \<Rightarrow>
          (case Executor_stop executor of
             Inl e \<Rightarrow> (Inl e, rt)
           | Inr executor' \<Rightarrow>
               (Inr (), rt\<lparr>executors := (executors rt)(graph_id := None)\<rparr>)))"

text \<open>\<^verbatim>\<open>Runtime._create_or_get_graph\<close> (lines 257-272).\<close>

definition create_or_get_graph :: "runtime \<Rightarrow> string \<Rightarrow> graph \<times> runtime" where
  "create_or_get_graph rt graph_id =
     (case graphs rt graph_id of
        None \<Rightarrow>
          (let graph = Graph_new (next_oid rt) graph_id
           in (graph,
               rt\<lparr>graphs := (graphs rt)(graph_id \<mapsto> graph), next_oid := Suc (next_oid rt)\<rparr>))
      | Some graph \<Rightarrow> (graph, rt))"

text \<open>\<^verbatim>\<open>Runtime.new_graph\<close> (lines 291-296).\<close>

definition new_graph :: "runtime \<Rightarrow> string \<Rightarrow> (error + unit) \<times> runtime" where
  "new_graph rt graph_id =
     (Inr (),
      rt\<lparr>graphs := (graphs rt)(graph_id \<mapsto> Graph_new (next_oid rt) graph_id),
         next_oid := Suc (next_oid rt)\<rparr>)"

text \<open>
  The methods below fetch the graph object once and then change it in place. The body of
  each works on that object and on the history of \<^verbatim>\<open>graph.disconnect\<close> calls; \<open>commit\<close>
  puts the object, as the body left it, back under its id, whether the body failed or not.
\<close>

type_synonym outcome = "(error + unit) \<times> graph \<times> calls"

definition commit :: "runtime \<Rightarrow> string \<Rightarrow> outcome \<Rightarrow> (error + unit) \<times> runtime" where
  "commit rt graph_id out =
     (case out of
        (r, graph, cs) \<Rightarrow>
          (r, rt\<lparr>graphs := (graphs rt)(graph_id \<mapsto> graph),
                 disconnect_calls := disconnect_calls rt @ cs\<rparr>))"

text \<open>\<^verbatim>\<open>Runtime.add_node\<close> (lines 298-311).\<close>

definition add_node :: "runtime \<Rightarrow> string \<Rightarrow> string \<Rightarrow> string \<Rightarrow> (error + unit) \<times> runtime" where
  "add_node rt graph_id node_id component_id =
     (case create_or_get_graph rt graph_id of
        (graph, rt1) \<Rightarrow>
          (case components rt1 component_id of
             None \<Rightarrow> (Inl (KeyError component_id), rt1)
           | Some e \<Rightarrow>
               (case instantiate (ce_class e) node_id of
                  Inl err \<Rightarrow> (Inl err, rt1)
                | Inr component \<Rightarrow>
                    (case Graph_add_component graph component of
                       Inl err \<Rightarrow> (Inl err, rt1)
                     | Inr graph' \<Rightarrow> commit rt1 graph_id (Inr (), graph', [])))))"

text \<open>\<^verbatim>\<open>Runtime.remove_node\<close> (lines 313-321).\<close>

definition remove_node :: "runtime \<Rightarrow> string \<Rightarrow> string \<Rightarrow> (error + unit) \<times> runtime" where
  "remove_node rt graph_id node_id =
     (case create_or_get_graph rt graph_id of
        (graph, rt1) \<Rightarrow>
          (case Graph_remove_component graph node_id of
             Inl err \<Rightarrow> (Inl err, rt1)
           | Inr graph' \<Rightarrow> commit rt1 graph_id (Inr (), graph', [])))"

text \<open>
  The \<^verbatim>\<open>src\<close> and \<^verbatim>\<open>tgt\<close> arguments are dictionaries with the keys \<^verbatim>\<open>node\<close> and
  \<^verbatim>\<open>port\<close>. \<^verbatim>\<open>_find_component_by_name\<close> returns \<^verbatim>\<open>None\<close> for an unknown node, and the
  attribute access on it raises \<^verbatim>\<open>AttributeError\<close>; an unknown port name is a failed
  lookup in the component's port mapping.
\<close>

record port_addr =
  node :: string
  port :: string

definition find_output_port :: "graph \<Rightarrow> port_addr \<Rightarrow> error + port" where
  "find_output_port graph src =
     (case find_component_by_name graph (node src) of
        None \<Rightarrow> Inl (AttributeError ''outputs'')
      | Some source_component \<Rightarrow>
          (case lookup_port (c_outputs source_component) (port src) of
             None \<Rightarrow> Inl (KeyError (port src))
           | Some source_port \<Rightarrow> Inr source_port))"

definition find_input_port :: "graph \<Rightarrow> port_addr \<Rightarrow> error + port" where
  "find_input_port graph tgt =
     (case find_component_by_name graph (node tgt) of
        None \<Rightarrow> Inl (AttributeError ''inputs'')
      | Some target_component \<Rightarrow>
          (case lookup_port (c_inputs target_component) (port tgt) of
             None \<Rightarrow> Inl (KeyError (port tgt))
           | Some target_port \<Rightarrow> Inr target_port))"

definition output_ref :: "port_addr \<Rightarrow> port_ref" where
  "output_ref src = OutputPort (node src) (port src)"

definition input_ref :: "port_addr \<Rightarrow> port_ref" where
  "input_ref tgt = InputPort (node tgt) (port tgt)"

text \<open>One invocation \<^verbatim>\<open>graph.disconnect(port)\<close>, entered into the history.\<close>

definition call_disconnect :: "graph \<Rightarrow> port_ref \<Rightarrow> outcome" where
  "call_disconnect graph ref =
     (case Graph_disconnect graph ref of
        Inl e \<Rightarrow> (Inl e, graph, [(graph, ref)])
      | Inr graph' \<Rightarrow> (Inr (), graph', [(graph, ref)]))"

definition lift_graph :: "graph \<Rightarrow> calls \<Rightarrow> error + graph \<Rightarrow> outcome" where
  "lift_graph graph cs r =
     (case r of Inl e \<Rightarrow> (Inl e, graph, cs) | Inr graph' \<Rightarrow> (Inr (), graph', cs))"

text \<open>\<^verbatim>\<open>Runtime.add_edge\<close> (lines 323-338).\<close>

definition add_edge ::
  "runtime \<Rightarrow> string \<Rightarrow> port_addr \<Rightarrow> port_addr \<Rightarrow> (error + unit) \<times> runtime" where
  "add_edge rt graph_id src tgt =
     (case graphs rt graph_id of
        None \<Rightarrow> (Inl (KeyError graph_id), rt)
      | Some graph \<Rightarrow>
          commit rt graph_id
            (case find_output_port graph src of
               Inl e \<Rightarrow> (Inl e, graph, [])
             | Inr source_port \<Rightarrow>
                 (case find_input_port graph tgt of
                    Inl e \<Rightarrow> (Inl e, graph, [])
                  | Inr target_port \<Rightarrow>
                      lift_graph graph []
                        (Graph_connect graph (output_ref src) (input_ref tgt)))))"

text \<open>\<^verbatim>\<open>Runtime.remove_edge\<close> (lines 340-357).\<close>

definition remove_edge ::
  "runtime \<Rightarrow> string \<Rightarrow> port_addr \<Rightarrow> port_addr \<Rightarrow> (error + unit) \<times> runtime" where
  "remove_edge rt graph_id src tgt =
     (case graphs rt graph_id of
        None \<Rightarrow> (Inl (KeyError graph_id), rt)
      | Some graph \<Rightarrow>
          commit rt graph_id
            (case find_output_port graph src of
               Inl e \<Rightarrow> (Inl e, graph, [])
             | Inr source_port \<Rightarrow>
                 (case (if is_connected source_port
                        then call_disconnect graph (output_ref src)
                        else (Inr (), graph, [])) of
                    (Inl e, graph1, cs1) \<Rightarrow> (Inl e, graph1, cs1)
                  | (Inr u, graph1, cs1) \<Rightarrow>
                      (case find_input_port graph1 tgt of
                         Inl e \<Rightarrow> (Inl e, graph1, cs1)
                       | Inr target_port \<Rightarrow>
                           (case (if is_connected target_port
                                  then call_disconnect graph1 (input_ref tgt)
                                  else (Inr (), graph1, [])) of
                              (r, graph2, cs2) \<Rightarrow> (r, graph2, cs1 @ cs2))))))"

text \<open>\<^verbatim>\<open>Runtime.add_iip\<close> (lines 359-373).\<close>

definition add_iip ::
  "runtime \<Rightarrow> string \<Rightarrow> port_addr \<Rightarrow> pyvalue \<Rightarrow> (error + unit) \<times> runtime" where
  "add_iip rt graph_id src data =
     (case graphs rt graph_id of
        None \<Rightarrow> (Inl (KeyError graph_id), rt)
      | Some graph \<Rightarrow>
          commit rt graph_id
            (case find_input_port graph src of
               Inl e \<Rightarrow> (Inl e, graph, [])
             | Inr target_port \<Rightarrow>
                 (case (if is_connected target_port
                        then call_disconnect graph (input_ref src)
                        else (Inr (), graph, [])) of
                    (Inl e, graph1, cs1) \<Rightarrow> (Inl e, graph1, cs1)
                  | (Inr u, graph1, cs1) \<Rightarrow>
                      lift_graph graph1 cs1
                        (Graph_set_initial_packet graph1 (input_ref src) data))))"

text \<open>\<^verbatim>\<open>Runtime.remove_iip\<close> (lines 375-389).\<close>

definition remove_iip ::
  "runtime \<Rightarrow> string \<Rightarrow> port_addr \<Rightarrow> (error + unit) \<times> runtime" where
  "remove_iip rt graph_id src =
     (case graphs rt graph_id of
        None \<Rightarrow> (Inl (KeyError graph_id), rt)
      | Some graph \<Rightarrow>
          commit rt graph_id
            (case find_input_port graph src of
               Inl e \<Rightarrow> (Inl e, graph, [])
             | Inr target_port \<Rightarrow>
                 (case (if is_connected target_port
                        then call_disconnect graph (input_ref src)
                        else (Inr (), graph, [])) of
                    (Inl e, graph1, cs1) \<Rightarrow> (Inl e, graph1, cs1)
                  | (Inr u, graph1, cs1) \<Rightarrow>
                      lift_graph graph1 cs1
                        (Graph_unset_initial_packet graph1 (input_ref src)))))"

text \<open>The invocations of \<^verbatim>\<open>graph.disconnect\<close> made between two states.\<close>

definition new_calls :: "runtime \<Rightarrow> runtime \<Rightarrow> calls" where
  "new_calls rt rt' = drop (length (disconnect_calls rt)) (disconnect_calls rt')"


section \<open>Predicates used in the statements\<close>

fun is_ValueError :: "error + 'a \<Rightarrow> bool" where
  "is_ValueError (Inl (ValueError m)) = True"
| "is_ValueError r = False"

fun is_TypeError :: "error + 'a \<Rightarrow> bool" where
  "is_TypeError (Inl (TypeError m)) = True"
| "is_TypeError r = False"

fun is_StateError :: "error + 'a \<Rightarrow> bool" where
  "is_StateError (Inl (StateError m)) = True"
| "is_StateError r = False"

text \<open>
  The port type as the specification describes it, by the size of the allowed-type set:
  none gives \<^verbatim>\<open>any\<close>, one gives its category in the type map or \<^verbatim>\<open>any\<close>, several give
  \<^verbatim>\<open>any\<close>.
\<close>

fun claimed_port_type :: "pytype list \<Rightarrow> string" where
  "claimed_port_type [] = ''any''"
| "claimed_port_type [t] = (case type_map t of Some c \<Rightarrow> c | None \<Rightarrow> ''any'')"
| "claimed_port_type ts = ''any''"

text \<open>
  Every object in the tables was constructed before the next one will be: its identity
  is below the counter.
\<close>

definition oids_fresh :: "runtime \<Rightarrow> bool" where
  "oids_fresh rt =
     ((\<forall>k g. graphs rt k = Some g \<longrightarrow> g_oid g < next_oid rt) \<and>
      (\<forall>k e. executors rt k = Some e \<longrightarrow> ex_oid e < next_oid rt \<and> ex_graph e < next_oid rt))"

definition consistent :: "runtime \<Rightarrow> bool" where
  "consistent rt =
     (oids_fresh rt \<and> (\<forall>g. executors rt g \<noteq> None \<longrightarrow> graphs rt g \<noteq> None))"

text \<open>The states that a runtime gets into from its construction by calls of its methods.\<close>

inductive reachable :: "runtime \<Rightarrow> bool" where
  init: "reachable Runtime_init"
| register_component: "reachable rt \<Longrightarrow> reachable (snd (register_component rt c ov))"
| start: "reachable rt \<Longrightarrow> reachable (snd (start rt g))"
| stop: "reachable rt \<Longrightarrow> reachable (snd (stop rt g))"
| new_graph: "reachable rt \<Longrightarrow> reachable (snd (new_graph rt g))"
| add_node: "reachable rt \<Longrightarrow> reachable (snd (add_node rt g n c))"
| remove_node: "reachable rt \<Longrightarrow> reachable (snd (remove_node rt g n))"
| add_edge: "reachable rt \<Longrightarrow> reachable (snd (add_edge rt g src tgt))"
| remove_edge: "reachable rt \<Longrightarrow> reachable (snd (remove_edge rt g src tgt))"
| add_iip: "reachable rt \<Longrightarrow> reachable (snd (add_iip rt g src d))"
| remove_iip: "reachable rt \<Longrightarrow> reachable (snd (remove_iip rt g src))"

text \<open>
  The states reached without ever calling \<^verbatim>\<open>start\<close> on the graph id \<open>g\<close>.
\<close>

inductive never_started :: "string \<Rightarrow> runtime \<Rightarrow> bool" for g :: string where
  init: "never_started g Runtime_init"
| register_component:
    "never_started g rt \<Longrightarrow> never_started g (snd (register_component rt c ov))"
| start_other: "never_started g rt \<Longrightarrow> g' \<noteq> g \<Longrightarrow> never_started g (snd (start rt g'))"
| stop: "never_started g rt \<Longrightarrow> never_started g (snd (stop rt g'))"
| new_graph: "never_started g rt \<Longrightarrow> never_started g (snd (new_graph rt g'))"
| add_node: "never_started g rt \<Longrightarrow> never_started g (snd (add_node rt g' n c))"
| remove_node: "never_started g rt \<Longrightarrow> never_started g (snd (remove_node rt g' n))"
| add_edge: "never_started g rt \<Longrightarrow> never_started g (snd (add_edge rt g' src tgt))"
| remove_edge: "never_started g rt \<Longrightarrow> never_started g (snd (remove_edge rt g' src tgt))"
| add_iip: "never_started g rt \<Longrightarrow> never_started g (snd (add_iip rt g' src d))"
| remove_iip: "never_started g rt \<Longrightarrow> never_started g (snd (remove_iip rt g' src))"

text \<open>
  A history of \<^verbatim>\<open>graph.disconnect\<close> calls is guarded when each call was made on a port
  that existed, answered true to \<^verbatim>\<open>is_connected\<close> and had an attachment at that moment.
\<close>

definition guarded :: "calls \<Rightarrow> bool" where
  "guarded cs =
     list_all (\<lambda>(gr, ref). case get_port gr ref of
                              None \<Rightarrow> False
                            | Some p \<Rightarrow> is_connected p \<and> has_attachment p) cs"

definition ok_outcome :: "graph \<Rightarrow> outcome \<Rightarrow> bool" where
  "ok_outcome gr out = (g_oid (fst (snd out)) = g_oid gr \<and> guarded (snd (snd out)))"


section \<open>Example classes and states\<close>

definition in_decl :: port_decl where
  "in_decl = \<lparr>p_name = ''IN'', p_array = False, p_optional = False,
               p_allowed_types = [T_int], p_description = None, p_default = VNone\<rparr>"

definition opt_decl :: port_decl where
  "opt_decl = \<lparr>p_name = ''OPT'', p_array = False, p_optional = True,
                p_allowed_types = [], p_description = Some ''option'', p_default = VInt 0\<rparr>"

definition out_decl :: port_decl where
  "out_decl = \<lparr>p_name = ''OUT'', p_array = False, p_optional = False,
                p_allowed_types = [T_str, T_unicode], p_description = None,
                p_default = VNone\<rparr>"

definition err_decl :: port_decl where
  "err_decl = \<lparr>p_name = ''ERR'', p_array = True, p_optional = True,
                p_allowed_types = [T_other ''Exception''], p_description = None,
                p_default = VNone\<rparr>"

definition Repeat :: component_class where
  "Repeat = \<lparr>cls_module = ''pflow.components'', cls_name = ''Repeat'',
              cls_is_component = True, cls_is_graph = False, cls_is_abstract = False,
              cls_doc = Some ''Repeats its input'',
              cls_inputs = [in_decl, opt_decl], cls_outputs = [out_decl, err_decl]\<rparr>"

text \<open>A later version of the class \<open>Repeat\<close>: same module and name, other ports.\<close>

definition Repeat_v2 :: component_class where
  "Repeat_v2 = \<lparr>cls_module = ''pflow.components'', cls_name = ''Repeat'',
              cls_is_component = True, cls_is_graph = False, cls_is_abstract = False,
              cls_doc = Some ''Repeats its input twice'',
              cls_inputs = [in_decl], cls_outputs = [out_decl]\<rparr>"

definition NotAComponent :: component_class where
  "NotAComponent = \<lparr>cls_module = ''builtins'', cls_name = ''object'',
              cls_is_component = False, cls_is_graph = False, cls_is_abstract = False,
              cls_doc = None, cls_inputs = [], cls_outputs = []\<rparr>"

definition rt_registered :: runtime where
  "rt_registered = snd (register_component Runtime_init (Class Repeat) False)"

definition rt_graph :: runtime where
  "rt_graph = snd (new_graph Runtime_init ''g'')"

definition rt_running :: runtime where
  "rt_running = snd (start rt_graph ''g'')"


text \<open>
  A graph with two nodes of class \<open>Repeat\<close> and an edge from \<^verbatim>\<open>a.OUT\<close> to \<^verbatim>\<open>b.IN\<close>, and
  the runtime that gets there by registering the class, adding the nodes and the edge.
\<close>

definition a_out :: port_addr where "a_out = \<lparr>node = ''a'', port = ''OUT''\<rparr>"
definition b_in :: port_addr where "b_in = \<lparr>node = ''b'', port = ''IN''\<rparr>"

definition port_out_a :: port where
  "port_out_a = (new_port out_decl)\<lparr>p_peers := [(''b'', ''IN'')]\<rparr>"

definition port_in_b :: port where
  "port_in_b = (new_port in_decl)\<lparr>p_peers := [(''a'', ''OUT'')]\<rparr>"

definition wired_graph :: graph where
  "wired_graph =
     \<lparr>g_oid = 0, g_id = ''g'',
      g_components =
        [\<lparr>c_name = ''a'', c_inputs = [new_port in_decl, new_port opt_decl],
          c_outputs = [port_out_a, new_port err_decl]\<rparr>,
         \<lparr>c_name = ''b'', c_inputs = [port_in_b, new_port opt_decl],
          c_outputs = [new_port out_decl, new_port err_decl]\<rparr>]\<rparr>"

definition rt_wired :: runtime where
  "rt_wired =
     snd (add_edge
           (snd (add_node
                  (snd (add_node rt_registered ''g'' ''a'' ''pflow.components/Repeat''))
                  ''g'' ''b'' ''pflow.components/Repeat''))
           ''g'' a_out b_in)"


section \<open>Verified properties\<close>

subsection \<open>Evaluation of the example states\<close>

lemma rt_graph_eval:
  "rt_graph = \<lparr>components = Map.empty, graphs = [''g'' \<mapsto> Graph_new 0 ''g''],
               executors = Map.empty, next_oid = Suc 0, disconnect_calls = []\<rparr>"
  by (simp add: rt_graph_def new_graph_def Runtime_init_def)

lemma rt_running_eval:
  "rt_running = \<lparr>components = Map.empty, graphs = [''g'' \<mapsto> Graph_new 0 ''g''],
                 executors = [''g'' \<mapsto> \<lparr>ex_oid = Suc 0, ex_graph = 0, ex_state = Running\<rparr>],
                 next_oid = Suc (Suc 0), disconnect_calls = []\<rparr>"
  by (simp add: rt_running_def rt_graph_eval start_def Let_def Executor_new_def
      is_running_def execute_def Graph_new_def)

lemma Repeat_spec_eval:
  "create_component_spec (long_class_name Repeat) Repeat =
     Inr \<lparr>cs_name = ''pflow.components/Repeat'', cs_description = ''Repeats its input'',
          cs_subgraph = False,
          cs_inPorts = [inport_entry (new_port in_decl), inport_entry (new_port opt_decl)],
          cs_outPorts = [outport_entry (new_port out_decl),
                         outport_entry (new_port err_decl)]\<rparr>"
  by (simp add: create_component_spec_def long_class_name_def Repeat_def instantiate_def
      or_empty_def)

subsection \<open>Port types\<close>

text \<open>
  C5, as amended. Every value of the type map is one of the seven category names
  string, boolean, int, number, object, array, any: the map sends the native integer type
  to \<^verbatim>\<open>int\<close>, the name the protocol uses, not to \<^verbatim>\<open>integer\<close>.
\<close>

theorem type_map_range: "type_map t = Some c \<Longrightarrow> c \<in> protocol_categories"
  by (cases t) (auto simp: protocol_categories_def)

theorem type_map_range_witness:
  "type_map T_int = Some ''int'' \<and> ''int'' \<in> protocol_categories"
  using type_map_range [of T_int "''int''"] by simp

text \<open>
  C5, as stated, fails at the native integer type: its category \<^verbatim>\<open>int\<close> is not in the
  specification's enumeration.
\<close>

theorem type_map_range_counterexample:
  "type_map T_int = Some ''int'' \<and> ''int'' \<notin> spec_categories"
  by (simp add: spec_categories_def)

lemma get_port_type_claimed:
  "get_port_type p ''any'' = claimed_port_type (p_allowed_types p)"
  by (cases "p_allowed_types p" rule: claimed_port_type.cases)
     (simp_all add: get_port_type_def split: option.splits)

text \<open>
  C6. The type reported for a port depends only on its allowed types, by their number:
  \<^verbatim>\<open>get_port_type\<close> agrees with the specification's case distinction, and in a component
  spec the \<^verbatim>\<open>type\<close> of each entry of \<^verbatim>\<open>inPorts\<close> and \<^verbatim>\<open>outPorts\<close> is that value for the
  corresponding port of the class.
\<close>

theorem port_type_by_size:
  "get_port_type p ''any'' = claimed_port_type (p_allowed_types p) \<and>
   (create_component_spec n cls = Inr spec \<longrightarrow>
      map ip_type (cs_inPorts spec) =
        map (\<lambda>d. claimed_port_type (p_allowed_types d)) (cls_inputs cls) \<and>
      map op_type (cs_outPorts spec) =
        map (\<lambda>d. claimed_port_type (p_allowed_types d)) (cls_outputs cls))"
  by (auto simp: get_port_type_claimed create_component_spec_def instantiate_def
        inport_entry_def outport_entry_def new_port_def split: if_splits)

theorem port_type_by_size_witness:
  "(\<exists>spec. create_component_spec (long_class_name Repeat) Repeat = Inr spec \<and>
      map ip_type (cs_inPorts spec) = [''int'', ''any''] \<and>
      map op_type (cs_outPorts spec) = [''any'', ''any''])"
proof -
  obtain spec where s: "create_component_spec (long_class_name Repeat) Repeat = Inr spec"
    using Repeat_spec_eval by blast
  from port_type_by_size [of "new_port in_decl" "long_class_name Repeat" Repeat spec] s
  have "map ip_type (cs_inPorts spec) =
          map (\<lambda>d. claimed_port_type (p_allowed_types d)) (cls_inputs Repeat) \<and>
        map op_type (cs_outPorts spec) =
          map (\<lambda>d. claimed_port_type (p_allowed_types d)) (cls_outputs Repeat)"
    by blast
  then have "map ip_type (cs_inPorts spec) = [''int'', ''any''] \<and>
             map op_type (cs_outPorts spec) = [''any'', ''any'']"
    by (simp add: Repeat_def in_decl_def opt_decl_def out_decl_def err_decl_def)
  with s show ?thesis by (intro exI [of _ spec]) simp
qed


subsection \<open>The component registry\<close>

lemma rt_registered_components:
  "components rt_registered (long_class_name Repeat) \<noteq> None"
  by (simp add: rt_registered_def register_component_def Let_def Repeat_spec_eval
      Runtime_init_def) (simp add: Repeat_def)

text \<open>
  On classes \<^verbatim>\<open>register_component\<close> behaves as follows. With \<^verbatim>\<open>overwrite=False\<close> on a
  class whose long name is already registered it raises ValueError and leaves the runtime
  as it was; on a class that is not a subclass of \<^verbatim>\<open>core.Component\<close> it raises
  ValueError whatever the flag, the runtime unchanged again; with \<^verbatim>\<open>overwrite=True\<close> a
  component class that can be instantiated is stored under its long name, with its new
  spec, in place of whatever entry was there.
\<close>

lemma register_component_on_classes:
  "(long_class_name c \<in> dom (components rt) \<longrightarrow>
      is_ValueError (fst (register_component rt (Class c) False)) \<and>
      snd (register_component rt (Class c) False) = rt) \<and>
   (\<not> cls_is_component c \<longrightarrow>
      is_ValueError (fst (register_component rt (Class c) ov)) \<and>
      snd (register_component rt (Class c) ov) = rt) \<and>
   (cls_is_component c \<and> \<not> cls_is_abstract c \<longrightarrow>
      (\<exists>spec. create_component_spec (long_class_name c) c = Inr spec \<and>
         register_component rt (Class c) True =
           (Inr (), rt\<lparr>components := (components rt)
                        (long_class_name c \<mapsto> \<lparr>ce_class = c, ce_spec = spec\<rparr>)\<rparr>)))"
  by (auto simp: register_component_def Let_def create_component_spec_def instantiate_def)

text \<open>
  The three cases on the example registry: the registered class again without the flag,
  a class outside the hierarchy, and a second class of the same long name with the flag,
  which takes the place of the first.
\<close>

lemma register_component_examples:
  "long_class_name Repeat_v2 \<in> dom (components rt_registered) \<and>
   is_ValueError (fst (register_component rt_registered (Class Repeat_v2) False)) \<and>
   snd (register_component rt_registered (Class Repeat_v2) False) = rt_registered \<and>
   is_ValueError (fst (register_component rt_registered (Class NotAComponent) True)) \<and>
   snd (register_component rt_registered (Class NotAComponent) True) = rt_registered \<and>
   map_option ce_class (components rt_registered ''pflow.components/Repeat'') = Some Repeat \<and>
   fst (register_component rt_registered (Class Repeat_v2) True) = Inr () \<and>
   map_option ce_class
     (components (snd (register_component rt_registered (Class Repeat_v2) True))
        ''pflow.components/Repeat'') = Some Repeat_v2 \<and>
   Repeat_v2 \<noteq> Repeat"
proof -
  have ln: "long_class_name Repeat_v2 = ''pflow.components/Repeat''"
    "long_class_name Repeat = ''pflow.components/Repeat''"
    by (simp_all add: long_class_name_def Repeat_v2_def Repeat_def)
  have a: "long_class_name Repeat_v2 \<in> dom (components rt_registered)"
    using rt_registered_components by (simp add: dom_def ln)
  have b: "\<not> cls_is_component NotAComponent" by (simp add: NotAComponent_def)
  have c: "cls_is_component Repeat_v2 \<and> \<not> cls_is_abstract Repeat_v2"
    by (simp add: Repeat_v2_def)
  have d: "map_option ce_class (components rt_registered ''pflow.components/Repeat'') =
             Some Repeat"
    by (simp add: rt_registered_def register_component_def Let_def Repeat_spec_eval
        Runtime_init_def) (simp add: Repeat_def long_class_name_def)
  have e: "Repeat_v2 \<noteq> Repeat"
  proof
    assume "Repeat_v2 = Repeat"
    then have "cls_inputs Repeat_v2 = cls_inputs Repeat" by simp
    then show False by (simp add: Repeat_v2_def Repeat_def)
  qed
  from register_component_on_classes [of Repeat_v2 rt_registered True] a
  have 1: "is_ValueError (fst (register_component rt_registered (Class Repeat_v2) False)) \<and>
        snd (register_component rt_registered (Class Repeat_v2) False) = rt_registered"
    by blast
  from register_component_on_classes [of NotAComponent rt_registered True] b
  have 2: "is_ValueError (fst (register_component rt_registered (Class NotAComponent) True)) \<and>
        snd (register_component rt_registered (Class NotAComponent) True) = rt_registered"
    by blast
  from register_component_on_classes [of Repeat_v2 rt_registered True] c
  obtain spec where "register_component rt_registered (Class Repeat_v2) True =
           (Inr (), rt_registered\<lparr>components := (components rt_registered)
              (long_class_name Repeat_v2 \<mapsto> \<lparr>ce_class = Repeat_v2, ce_spec = spec\<rparr>)\<rparr>)"
    by blast
  then have 3: "fst (register_component rt_registered (Class Repeat_v2) True) = Inr () \<and>
     map_option ce_class
       (components (snd (register_component rt_registered (Class Repeat_v2) True))
          ''pflow.components/Repeat'') = Some Repeat_v2"
    by (simp add: ln)
  show ?thesis using a 1 2 3 d e by blast
qed

text \<open>
  On an argument that is not a class,
  \<^verbatim>\<open>register_component\<close> raises TypeError, with either flag and in every state, and
  leaves the runtime as it was.
\<close>

lemma register_component_on_non_classes:
  "register_component rt (NonClass r) ov =
     (Inl (TypeError ''issubclass() arg 1 must be a class''), rt)"
  by (simp add: register_component_def)

text \<open>
  C8. The claim asks for ValueError on every argument that is not a subclass of
  \<^verbatim>\<open>core.Component\<close>. On the string \<^verbatim>\<open>'Repeat'\<close>, which is not a class, the call raises
  TypeError instead, with the flag off and with it on, in the initial runtime and in one
  with a registered component; the runtime is unchanged. (The message of the ValueError of
  line 111 says that the argument must be a class, and \<^verbatim>\<open>register_module\<close> asks
  \<^verbatim>\<open>inspect.isclass\<close> before \<^verbatim>\<open>issubclass\<close>, lines 155-159.)
\<close>

theorem register_component_non_class:
  "register_component Runtime_init (NonClass ''Repeat'') False =
     (Inl (TypeError ''issubclass() arg 1 must be a class''), Runtime_init) \<and>
   register_component rt_registered (NonClass ''Repeat'') True =
     (Inl (TypeError ''issubclass() arg 1 must be a class''), rt_registered) \<and>
   is_TypeError (fst (register_component Runtime_init (NonClass ''Repeat'') False)) \<and>
   \<not> is_ValueError (fst (register_component Runtime_init (NonClass ''Repeat'') False)) \<and>
   \<not> is_ValueError (fst (register_component rt_registered (NonClass ''Repeat'') True))"
  by (simp add: register_component_def)

subsection \<open>Graph creation\<close>

lemma fresh_graph: "oids_fresh rt \<Longrightarrow> graphs rt k = Some g \<Longrightarrow> g_oid g < next_oid rt"
  unfolding oids_fresh_def by blast

lemma fresh_executor:
  "oids_fresh rt \<Longrightarrow> executors rt k = Some e \<Longrightarrow> ex_oid e < next_oid rt \<and> ex_graph e < next_oid rt"
  unfolding oids_fresh_def by blast

lemma rt_running_fresh: "oids_fresh rt_running"
  by (simp add: oids_fresh_def rt_running_eval Graph_new_def)

text \<open>
  C9. \<^verbatim>\<open>new_graph\<close> always succeeds and binds a new empty graph to the id; the graphs
  under other ids, the executor table, the component registry and the history of
  disconnect calls are unchanged, and so is \<^verbatim>\<open>is_started\<close> for every id. The new graph
  is a new object: no graph of the table and no executor's graph has its identity, so an
  executor registered under the id stays bound to the graph that was discarded.
\<close>

theorem new_graph_frame:
  "fst (new_graph rt g) = Inr () \<and>
   graphs (snd (new_graph rt g)) g = Some (Graph_new (next_oid rt) g) \<and>
   g_components (Graph_new (next_oid rt) g) = [] \<and>
   (\<forall>g'. g' \<noteq> g \<longrightarrow> graphs (snd (new_graph rt g)) g' = graphs rt g') \<and>
   executors (snd (new_graph rt g)) = executors rt \<and>
   components (snd (new_graph rt g)) = components rt \<and>
   disconnect_calls (snd (new_graph rt g)) = disconnect_calls rt \<and>
   (\<forall>g'. fst (is_started (snd (new_graph rt g)) g') = fst (is_started rt g')) \<and>
   (oids_fresh rt \<longrightarrow>
      (\<forall>k old. graphs rt k = Some old \<longrightarrow> g_oid old \<noteq> next_oid rt) \<and>
      (\<forall>k ex. executors rt k = Some ex \<longrightarrow> ex_graph ex \<noteq> next_oid rt))"
proof -
  have frame: "fst (new_graph rt g) = Inr () \<and>
     graphs (snd (new_graph rt g)) g = Some (Graph_new (next_oid rt) g) \<and>
     g_components (Graph_new (next_oid rt) g) = [] \<and>
     (\<forall>g'. g' \<noteq> g \<longrightarrow> graphs (snd (new_graph rt g)) g' = graphs rt g') \<and>
     executors (snd (new_graph rt g)) = executors rt \<and>
     components (snd (new_graph rt g)) = components rt \<and>
     disconnect_calls (snd (new_graph rt g)) = disconnect_calls rt \<and>
     (\<forall>g'. fst (is_started (snd (new_graph rt g)) g') = fst (is_started rt g'))"
    by (simp add: new_graph_def is_started_def Graph_new_def split: option.splits)
  have "oids_fresh rt \<longrightarrow>
      (\<forall>k old. graphs rt k = Some old \<longrightarrow> g_oid old \<noteq> next_oid rt) \<and>
      (\<forall>k ex. executors rt k = Some ex \<longrightarrow> ex_graph ex \<noteq> next_oid rt)"
    using fresh_graph fresh_executor by (metis less_irrefl)
  with frame show ?thesis by blast
qed

theorem new_graph_frame_witness:
  "''h'' \<noteq> ''g'' \<and> oids_fresh rt_running \<and>
   graphs (snd (new_graph rt_running ''g'')) ''g'' = Some (Graph_new 2 ''g'') \<and>
   graphs (snd (new_graph rt_running ''g'')) ''h'' = graphs rt_running ''h'' \<and>
   graphs rt_running ''g'' = Some (Graph_new 0 ''g'') \<and>
   executors (snd (new_graph rt_running ''g'')) ''g'' =
     Some \<lparr>ex_oid = Suc 0, ex_graph = 0, ex_state = Running\<rparr> \<and>
   fst (is_started (snd (new_graph rt_running ''g'')) ''g'') = True"
proof -
  have a: "''h'' \<noteq> ''g''" by simp
  have b: "graphs rt_running ''g'' = Some (Graph_new 0 ''g'')"
    and c: "executors rt_running ''g'' =
              Some \<lparr>ex_oid = Suc 0, ex_graph = 0, ex_state = Running\<rparr>"
    and d: "next_oid rt_running = 2"
    by (simp_all add: rt_running_eval)
  have e: "fst (is_started rt_running ''g'') = True"
    by (simp add: is_started_def c is_running_def)
  from new_graph_frame [of rt_running "''g''"] a b c d e rt_running_fresh
  show ?thesis by (simp add: Graph_new_def)
qed


subsection \<open>Graph operations keep the graph object and guard their disconnects\<close>

lemma commit_fields [simp]:
  "fst (commit rt g (r, gr, cs)) = r"
  "graphs (snd (commit rt g (r, gr, cs))) = (graphs rt)(g \<mapsto> gr)"
  "executors (snd (commit rt g (r, gr, cs))) = executors rt"
  "components (snd (commit rt g (r, gr, cs))) = components rt"
  "next_oid (snd (commit rt g (r, gr, cs))) = next_oid rt"
  "disconnect_calls (snd (commit rt g (r, gr, cs))) = disconnect_calls rt @ cs"
  by (simp_all add: commit_def)

lemma commit_same: "graphs rt g = Some gr \<Longrightarrow> commit rt g (r, gr, []) = (r, rt)"
  by (simp add: commit_def map_upd_triv)

lemma apply_ports_oid [simp]: "g_oid (apply_ports h gr) = g_oid gr"
  by (simp add: apply_ports_def)

lemma Graph_add_component_oid:
  "Graph_add_component gr c = Inr gr' \<Longrightarrow> g_oid gr' = g_oid gr"
  by (auto simp: Graph_add_component_def split: if_splits)

lemma Graph_remove_component_oid:
  "Graph_remove_component gr n = Inr gr' \<Longrightarrow> g_oid gr' = g_oid gr"
  by (auto simp: Graph_remove_component_def split: if_splits)

lemma Graph_connect_oid:
  "Graph_connect gr s t = Inr gr' \<Longrightarrow> g_oid gr' = g_oid gr"
  unfolding Graph_connect_def
  by (cases "get_port gr s"; cases "get_port gr t") (auto split: if_splits)

lemma Graph_disconnect_oid:
  "Graph_disconnect gr r = Inr gr' \<Longrightarrow> g_oid gr' = g_oid gr"
  unfolding Graph_disconnect_def
  by (cases "get_port gr r") (auto split: if_splits)

lemma Graph_set_initial_packet_oid:
  "Graph_set_initial_packet gr r v = Inr gr' \<Longrightarrow> g_oid gr' = g_oid gr"
  unfolding Graph_set_initial_packet_def
  by (cases "get_port gr r") (auto split: if_splits)

lemma Graph_unset_initial_packet_oid:
  "Graph_unset_initial_packet gr r = Inr gr' \<Longrightarrow> g_oid gr' = g_oid gr"
  unfolding Graph_unset_initial_packet_def
  by (cases "get_port gr r") (auto split: if_splits)

lemma guarded_simps [simp]:
  "guarded []"
  "guarded (cs @ cs') = (guarded cs \<and> guarded cs')"
  by (simp_all add: guarded_def)

lemma ok_outcome_same [simp]: "ok_outcome gr (r, gr, [])"
  by (simp add: ok_outcome_def)

lemma find_input_port_get:
  "find_input_port gr a = Inr p \<Longrightarrow> get_port gr (input_ref a) = Some p"
  by (auto simp: find_input_port_def get_port_def input_ref_def split: option.splits)

lemma find_output_port_get:
  "find_output_port gr a = Inr p \<Longrightarrow> get_port gr (output_ref a) = Some p"
  by (auto simp: find_output_port_def get_port_def output_ref_def split: option.splits)

lemma is_connected_attached: "is_connected p \<Longrightarrow> has_attachment p"
  by (simp add: is_connected_def has_attachment_def)

lemma call_disconnect_calls [simp]: "snd (snd (call_disconnect gr ref)) = [(gr, ref)]"
  by (cases "Graph_disconnect gr ref") (simp_all add: call_disconnect_def)

lemma call_disconnect_oid [simp]: "g_oid (fst (snd (call_disconnect gr ref))) = g_oid gr"
proof (cases "Graph_disconnect gr ref")
  case (Inl e)
  then show ?thesis by (simp add: call_disconnect_def)
next
  case (Inr gr')
  from Graph_disconnect_oid [OF Inr] Inr show ?thesis by (simp add: call_disconnect_def)
qed

lemma ok_guarded_step:
  assumes "get_port gr ref = Some p"
  shows "ok_outcome gr (if is_connected p then call_disconnect gr ref else (Inr (), gr, []))"
proof (cases "is_connected p")
  case True
  then have "guarded [(gr, ref)]"
    using assms by (simp add: guarded_def is_connected_attached)
  then show ?thesis using True by (simp add: ok_outcome_def)
next
  case False
  then show ?thesis by simp
qed

lemma ok_lift_graph:
  assumes "g_oid g1 = g_oid gr" "guarded cs" "\<And>x. res = Inr x \<Longrightarrow> g_oid x = g_oid g1"
  shows "ok_outcome gr (lift_graph g1 cs res)"
proof (cases res)
  case (Inl e)
  then show ?thesis using assms(1,2) by (simp add: lift_graph_def ok_outcome_def)
next
  case (Inr x)
  from assms(3) [OF Inr] have "g_oid x = g_oid gr" using assms(1) by simp
  then show ?thesis using assms(2) Inr by (simp add: lift_graph_def ok_outcome_def)
qed


lemma remove_edge_shape:
  assumes "graphs rt g = Some gr"
  shows "\<exists>out. remove_edge rt g src tgt = commit rt g out \<and> ok_outcome gr out"
proof (cases "find_output_port gr src")
  case (Inl e)
  then have "remove_edge rt g src tgt = commit rt g (Inl e, gr, [])"
    using assms by (simp add: remove_edge_def)
  then show ?thesis using ok_outcome_same by blast
next
  case (Inr sp)
  define s1 where "s1 = (if is_connected sp then call_disconnect gr (output_ref src)
                         else (Inr (), gr, []))"
  have ok1: "ok_outcome gr s1"
    unfolding s1_def by (rule ok_guarded_step) (rule find_output_port_get [OF Inr])
  obtain r1 g1 c1 where s1: "s1 = (r1, g1, c1)" by (cases s1)
  have body: "remove_edge rt g src tgt =
      commit rt g (case s1 of
                    (Inl e, graph1, cs1) \<Rightarrow> (Inl e, graph1, cs1)
                  | (Inr u, graph1, cs1) \<Rightarrow>
                      (case find_input_port graph1 tgt of
                         Inl e \<Rightarrow> (Inl e, graph1, cs1)
                       | Inr target_port \<Rightarrow>
                           (case (if is_connected target_port
                                  then call_disconnect graph1 (input_ref tgt)
                                  else (Inr (), graph1, [])) of
                              (r, graph2, cs2) \<Rightarrow> (r, graph2, cs1 @ cs2))))"
    using assms Inr by (simp add: remove_edge_def s1_def)
  show ?thesis
  proof (cases r1)
    case (Inl e)
    then have "remove_edge rt g src tgt = commit rt g (Inl e, g1, c1)"
      using body s1 by simp
    moreover have "ok_outcome gr (Inl e, g1, c1)"
      using ok1 s1 by (simp add: ok_outcome_def)
    ultimately show ?thesis by blast
  next
    case r1: (Inr u)
    show ?thesis
    proof (cases "find_input_port g1 tgt")
      case (Inl e)
      then have "remove_edge rt g src tgt = commit rt g (Inl e, g1, c1)"
        using body s1 r1 by simp
      moreover have "ok_outcome gr (Inl e, g1, c1)"
        using ok1 s1 by (simp add: ok_outcome_def)
      ultimately show ?thesis by blast
    next
      case tp: (Inr tp)
      define s2 where "s2 = (if is_connected tp then call_disconnect g1 (input_ref tgt)
                             else (Inr (), g1, []))"
      have ok2: "ok_outcome g1 s2"
        unfolding s2_def by (rule ok_guarded_step) (rule find_input_port_get [OF tp])
      obtain r2 g2 c2 where s2: "s2 = (r2, g2, c2)" by (cases s2)
      have "remove_edge rt g src tgt = commit rt g (r2, g2, c1 @ c2)"
        using body s1 r1 tp s2 by (simp add: s2_def)
      moreover have "ok_outcome gr (r2, g2, c1 @ c2)"
        using ok1 ok2 s1 s2 by (simp add: ok_outcome_def)
      ultimately show ?thesis by blast
    qed
  qed
qed

lemma iip_shape:
  assumes "find_input_port gr src = Inr tp"
    and "\<And>g1 x. F g1 = Inr x \<Longrightarrow> g_oid x = g_oid g1"
  shows "ok_outcome gr
           (case (if is_connected tp then call_disconnect gr (input_ref src)
                  else (Inr (), gr, [])) of
              (Inl e, graph1, cs1) \<Rightarrow> (Inl e, graph1, cs1)
            | (Inr u, graph1, cs1) \<Rightarrow> lift_graph graph1 cs1 (F graph1))"
proof -
  define s1 where "s1 = (if is_connected tp then call_disconnect gr (input_ref src)
                         else (Inr (), gr, []))"
  have ok1: "ok_outcome gr s1"
    unfolding s1_def by (rule ok_guarded_step) (rule find_input_port_get [OF assms(1)])
  obtain r1 g1 c1 where s1: "s1 = (r1, g1, c1)" by (cases s1)
  have g1: "g_oid g1 = g_oid gr" and c1: "guarded c1"
    using ok1 s1 by (simp_all add: ok_outcome_def)
  show ?thesis
  proof (cases r1)
    case (Inl e)
    then show ?thesis
      unfolding s1_def [symmetric] using s1 g1 c1 by (simp add: ok_outcome_def)
  next
    case (Inr u)
    have "ok_outcome gr (lift_graph g1 c1 (F g1))"
      by (rule ok_lift_graph [OF g1 c1]) (rule assms(2))
    then show ?thesis
      unfolding s1_def [symmetric] using s1 Inr by simp
  qed
qed

lemma add_iip_shape:
  assumes "graphs rt g = Some gr"
  shows "\<exists>out. add_iip rt g src d = commit rt g out \<and> ok_outcome gr out"
proof (cases "find_input_port gr src")
  case (Inl e)
  then have "add_iip rt g src d = commit rt g (Inl e, gr, [])"
    using assms by (simp add: add_iip_def)
  then show ?thesis using ok_outcome_same by blast
next
  case (Inr tp)
  have "ok_outcome gr
           (case (if is_connected tp then call_disconnect gr (input_ref src)
                  else (Inr (), gr, [])) of
              (Inl e, graph1, cs1) \<Rightarrow> (Inl e, graph1, cs1)
            | (Inr u, graph1, cs1) \<Rightarrow>
                lift_graph graph1 cs1 (Graph_set_initial_packet graph1 (input_ref src) d))"
    by (rule iip_shape [OF Inr]) (rule Graph_set_initial_packet_oid)
  moreover have "add_iip rt g src d = commit rt g
           (case (if is_connected tp then call_disconnect gr (input_ref src)
                  else (Inr (), gr, [])) of
              (Inl e, graph1, cs1) \<Rightarrow> (Inl e, graph1, cs1)
            | (Inr u, graph1, cs1) \<Rightarrow>
                lift_graph graph1 cs1 (Graph_set_initial_packet graph1 (input_ref src) d))"
    using assms Inr by (simp add: add_iip_def)
  ultimately show ?thesis by blast
qed

lemma remove_iip_shape:
  assumes "graphs rt g = Some gr"
  shows "\<exists>out. remove_iip rt g src = commit rt g out \<and> ok_outcome gr out"
proof (cases "find_input_port gr src")
  case (Inl e)
  then have "remove_iip rt g src = commit rt g (Inl e, gr, [])"
    using assms by (simp add: remove_iip_def)
  then show ?thesis using ok_outcome_same by blast
next
  case (Inr tp)
  have "ok_outcome gr
           (case (if is_connected tp then call_disconnect gr (input_ref src)
                  else (Inr (), gr, [])) of
              (Inl e, graph1, cs1) \<Rightarrow> (Inl e, graph1, cs1)
            | (Inr u, graph1, cs1) \<Rightarrow>
                lift_graph graph1 cs1 (Graph_unset_initial_packet graph1 (input_ref src)))"
    by (rule iip_shape [OF Inr]) (rule Graph_unset_initial_packet_oid)
  moreover have "remove_iip rt g src = commit rt g
           (case (if is_connected tp then call_disconnect gr (input_ref src)
                  else (Inr (), gr, [])) of
              (Inl e, graph1, cs1) \<Rightarrow> (Inl e, graph1, cs1)
            | (Inr u, graph1, cs1) \<Rightarrow>
                lift_graph graph1 cs1 (Graph_unset_initial_packet graph1 (input_ref src)))"
    using assms Inr by (simp add: remove_iip_def)
  ultimately show ?thesis by blast
qed

lemma add_edge_shape:
  assumes "graphs rt g = Some gr"
  shows "\<exists>out. add_edge rt g src tgt = commit rt g out \<and> ok_outcome gr out"
proof -
  define out where "out =
     (case find_output_port gr src of
        Inl e \<Rightarrow> (Inl e, gr, [])
      | Inr source_port \<Rightarrow>
          (case find_input_port gr tgt of
             Inl e \<Rightarrow> (Inl e, gr, [])
           | Inr target_port \<Rightarrow>
               lift_graph gr [] (Graph_connect gr (output_ref src) (input_ref tgt))))"
  have "ok_outcome gr (lift_graph gr [] (Graph_connect gr (output_ref src) (input_ref tgt)))"
    by (rule ok_lift_graph) (simp, simp, erule Graph_connect_oid)
  then have "ok_outcome gr out"
    unfolding out_def by (simp split: sum.splits)
  moreover have "add_edge rt g src tgt = commit rt g out"
    using assms by (simp add: add_edge_def out_def)
  ultimately show ?thesis by blast
qed

subsection \<open>An invariant of the reachable states\<close>

lemma consistent_commit:
  assumes "consistent rt" "graphs rt g = Some gr" "ok_outcome gr out"
  shows "consistent (snd (commit rt g out))"
proof -
  obtain r gr' cs where out: "out = (r, gr', cs)" by (cases out)
  have oid: "g_oid gr' = g_oid gr" using assms(3) out by (simp add: ok_outcome_def)
  have "g_oid gr < next_oid rt"
    using assms(1,2) unfolding consistent_def oids_fresh_def by blast
  with oid assms(1,2) show ?thesis
    unfolding out consistent_def oids_fresh_def by (auto simp: commit_def)
qed

lemma consistent_shape:
  assumes "consistent rt" "graphs rt g = Some gr"
    and "\<exists>out. res = commit rt g out \<and> ok_outcome gr out"
  shows "consistent (snd res)"
  using assms consistent_commit by blast

lemma consistent_init: "consistent Runtime_init"
  by (simp add: consistent_def oids_fresh_def Runtime_init_def)

lemma consistent_register: "consistent rt \<Longrightarrow> consistent (snd (register_component rt c ov))"
proof (cases c)
  case (Class cls)
  assume "consistent rt"
  then show ?thesis using Class
    by (cases "create_component_spec (long_class_name cls) cls")
       (simp_all add: consistent_def oids_fresh_def register_component_def Let_def)
next
  case (NonClass r)
  assume "consistent rt"
  then show ?thesis using NonClass by (simp add: register_component_def)
qed

lemma consistent_bump:
  "consistent rt \<Longrightarrow> consistent (rt\<lparr>next_oid := Suc (next_oid rt)\<rparr>)"
  unfolding consistent_def oids_fresh_def by (auto intro: less_SucI)

lemma consistent_new_graph: "consistent rt \<Longrightarrow> consistent (snd (new_graph rt g))"
  unfolding consistent_def oids_fresh_def
  by (auto simp: new_graph_def Graph_new_def intro: less_SucI)

lemma consistent_stop: "consistent rt \<Longrightarrow> consistent (snd (stop rt g))"
proof (cases "executors rt g")
  case None
  then show "consistent rt \<Longrightarrow> ?thesis" by (simp add: stop_def)
next
  case (Some ex)
  assume c: "consistent rt"
  show ?thesis
  proof (cases "Executor_stop ex")
    case (Inl e)
    then show ?thesis using Some c by (simp add: stop_def)
  next
    case (Inr ex')
    then have "snd (stop rt g) = rt\<lparr>executors := (executors rt)(g := None)\<rparr>"
      using Some by (simp add: stop_def)
    then show ?thesis using c unfolding consistent_def oids_fresh_def by auto
  qed
qed

lemma consistent_set_executor:
  assumes "consistent rt" "graphs rt g \<noteq> None" "ex_oid ex < next_oid rt"
    "ex_graph ex < next_oid rt"
  shows "consistent (rt\<lparr>executors := (executors rt)(g \<mapsto> ex)\<rparr>)"
  using assms unfolding consistent_def oids_fresh_def by auto

lemma execute_ids:
  "execute ex = Inr ex' \<Longrightarrow> ex_oid ex' = ex_oid ex \<and> ex_graph ex' = ex_graph ex \<and> ex_state ex' = Running"
  by (cases "ex_state ex") (auto simp: execute_def)

lemma consistent_start: 
  assumes c: "consistent rt" shows "consistent (snd (start rt g))"
proof (cases "graphs rt g")
  case None
  then show ?thesis using c by (simp add: start_def)
next
  case (Some gr)
  have gr: "g_oid gr < next_oid rt"
    using c Some unfolding consistent_def oids_fresh_def by blast
  show ?thesis
  proof (cases "executors rt g")
    case None
    define ex where "ex = Executor_new (next_oid rt) gr"
    define rt1 where "rt1 = rt\<lparr>executors := (executors rt)(g \<mapsto> ex),
                                 next_oid := Suc (next_oid rt)\<rparr>"
    have rt1: "rt1 = (rt\<lparr>next_oid := Suc (next_oid rt)\<rparr>)
                 \<lparr>executors := (executors (rt\<lparr>next_oid := Suc (next_oid rt)\<rparr>))(g \<mapsto> ex)\<rparr>"
      by (simp add: rt1_def)
    have c1: "consistent rt1"
      unfolding rt1
      by (rule consistent_set_executor [OF consistent_bump [OF c]])
         (use Some gr in \<open>simp_all add: ex_def Executor_new_def\<close>)
    have ex': "execute ex = Inr (ex\<lparr>ex_state := Running\<rparr>)"
      by (simp add: execute_def ex_def Executor_new_def)
    have "snd (start rt g) = rt1\<lparr>executors := (executors rt1)(g \<mapsto> ex\<lparr>ex_state := Running\<rparr>)\<rparr>"
      using Some None ex'
      by (simp add: start_def Let_def ex_def [symmetric] rt1_def [symmetric])
         (simp add: is_running_def ex_def Executor_new_def)
    moreover have "consistent (rt1\<lparr>executors := (executors rt1)(g \<mapsto> ex\<lparr>ex_state := Running\<rparr>)\<rparr>)"
      by (rule consistent_set_executor [OF c1])
         (use Some gr in \<open>simp_all add: rt1_def ex_def Executor_new_def\<close>)
    ultimately show ?thesis by simp
  next
    case ex: (Some ex)
    have ids: "ex_oid ex < next_oid rt" "ex_graph ex < next_oid rt"
      using c ex unfolding consistent_def oids_fresh_def by blast+
    show ?thesis
    proof (cases "is_running ex")
      case True
      then show ?thesis using Some ex c by (simp add: start_def)
    next
      case False
      show ?thesis
      proof (cases "execute ex")
        case (Inl e)
        then show ?thesis using Some ex c False by (simp add: start_def)
      next
        case (Inr ex')
        then have "snd (start rt g) = rt\<lparr>executors := (executors rt)(g \<mapsto> ex')\<rparr>"
          using Some ex False by (simp add: start_def)
        moreover have "consistent (rt\<lparr>executors := (executors rt)(g \<mapsto> ex')\<rparr>)"
          by (rule consistent_set_executor [OF c])
             (use Some ids execute_ids [OF Inr] in simp_all)
        ultimately show ?thesis by simp
      qed
    qed
  qed
qed

lemma create_or_get_graph_props:
  assumes "consistent rt" "create_or_get_graph rt g = (gr, rt1)"
  shows "consistent rt1" "graphs rt1 g = Some gr"
    "executors rt1 = executors rt" "components rt1 = components rt"
    "disconnect_calls rt1 = disconnect_calls rt"
proof -
  show "consistent rt1"
  proof (cases "graphs rt g")
    case None
    then have "rt1 = snd (new_graph rt g)"
      using assms(2) by (auto simp: create_or_get_graph_def new_graph_def Let_def)
    then show ?thesis using consistent_new_graph [OF assms(1)] by simp
  next
    case (Some a)
    then show ?thesis using assms by (simp add: create_or_get_graph_def)
  qed
  show "graphs rt1 g = Some gr" "executors rt1 = executors rt"
    "components rt1 = components rt" "disconnect_calls rt1 = disconnect_calls rt"
    using assms(2) by (cases "graphs rt g"; auto simp: create_or_get_graph_def Let_def)+
qed

lemma consistent_add_node:
  assumes c: "consistent rt" shows "consistent (snd (add_node rt g n cid))"
proof -
  obtain gr rt1 where cg: "create_or_get_graph rt g = (gr, rt1)"
    by (cases "create_or_get_graph rt g")
  note p = create_or_get_graph_props [OF c cg]
  show ?thesis
  proof (cases "components rt1 cid")
    case None
    then show ?thesis using cg p(1) by (simp add: add_node_def)
  next
    case (Some e)
    show ?thesis
    proof (cases "instantiate (ce_class e) n")
      case (Inl err)
      then show ?thesis using cg p(1) Some by (simp add: add_node_def)
    next
      case (Inr comp)
      show ?thesis
      proof (cases "Graph_add_component gr comp")
        case (Inl err)
        then show ?thesis using cg p(1) Some Inr by (simp add: add_node_def)
      next
        case gr': (Inr gr')
        have "ok_outcome gr (Inr (), gr', [])"
          using Graph_add_component_oid [OF gr'] by (simp add: ok_outcome_def)
        from consistent_commit [OF p(1) p(2) this]
        show ?thesis using cg Some Inr gr' by (simp add: add_node_def)
      qed
    qed
  qed
qed

lemma consistent_remove_node:
  assumes c: "consistent rt" shows "consistent (snd (remove_node rt g n))"
proof -
  obtain gr rt1 where cg: "create_or_get_graph rt g = (gr, rt1)"
    by (cases "create_or_get_graph rt g")
  note p = create_or_get_graph_props [OF c cg]
  show ?thesis
  proof (cases "Graph_remove_component gr n")
    case (Inl err)
    then show ?thesis using cg p(1) by (simp add: remove_node_def)
  next
    case gr': (Inr gr')
    have "ok_outcome gr (Inr (), gr', [])"
      using Graph_remove_component_oid [OF gr'] by (simp add: ok_outcome_def)
    from consistent_commit [OF p(1) p(2) this]
    show ?thesis using cg gr' by (simp add: remove_node_def)
  qed
qed

lemma consistent_graph_ops:
  assumes c: "consistent rt"
  shows "consistent (snd (add_edge rt g src tgt))"
    "consistent (snd (remove_edge rt g src tgt))"
    "consistent (snd (add_iip rt g src d))"
    "consistent (snd (remove_iip rt g src))"
proof -
  show "consistent (snd (add_edge rt g src tgt))"
  proof (cases "graphs rt g")
    case None then show ?thesis using c by (simp add: add_edge_def)
  next
    case (Some gr) show ?thesis by (rule consistent_shape [OF c Some add_edge_shape [OF Some]])
  qed
  show "consistent (snd (remove_edge rt g src tgt))"
  proof (cases "graphs rt g")
    case None then show ?thesis using c by (simp add: remove_edge_def)
  next
    case (Some gr) show ?thesis by (rule consistent_shape [OF c Some remove_edge_shape [OF Some]])
  qed
  show "consistent (snd (add_iip rt g src d))"
  proof (cases "graphs rt g")
    case None then show ?thesis using c by (simp add: add_iip_def)
  next
    case (Some gr) show ?thesis by (rule consistent_shape [OF c Some add_iip_shape [OF Some]])
  qed
  show "consistent (snd (remove_iip rt g src))"
  proof (cases "graphs rt g")
    case None then show ?thesis using c by (simp add: remove_iip_def)
  next
    case (Some gr) show ?thesis by (rule consistent_shape [OF c Some remove_iip_shape [OF Some]])
  qed
qed

lemma reachable_consistent: "reachable rt \<Longrightarrow> consistent rt"
  by (induction rule: reachable.induct)
     (simp_all add: consistent_init consistent_register consistent_start consistent_stop
        consistent_new_graph consistent_add_node consistent_remove_node consistent_graph_ops)


subsection \<open>Starting and stopping\<close>

lemma is_started_True:
  "fst (is_started rt g) \<Longrightarrow> \<exists>ex. executors rt g = Some ex \<and> is_running ex"
  by (cases "executors rt g") (simp_all add: is_started_def)

lemma start_running:
  assumes "graphs rt g = Some gr" "executors rt g = Some ex" "is_running ex"
  shows "start rt g = (Inl (ValueError (''Graph '' @ g @ '' is already started'')), rt)"
  using assms by (simp add: start_def)

lemma reachable_rt_graph: "reachable rt_graph"
  unfolding rt_graph_def by (intro reachable.new_graph reachable.init)

lemma reachable_rt_running: "reachable rt_running"
  unfolding rt_running_def by (intro reachable.start reachable_rt_graph)

text \<open>
  C1, as amended. In every state the runtime can reach, \<^verbatim>\<open>start\<close> on a graph that is
  already running (\<^verbatim>\<open>is_started\<close> is true) fails with ValueError, and \<^verbatim>\<open>stop\<close> on a
  graph id without an executor entry fails with ValueError; in both cases the whole
  runtime state, the graph table and the executor table included, is left as it was.
\<close>

theorem start_stop_errors:
  assumes "reachable rt"
  shows "(fst (is_started rt g) \<longrightarrow>
            start rt g = (Inl (ValueError (''Graph '' @ g @ '' is already started'')), rt)) \<and>
         (executors rt g = None \<longrightarrow>
            stop rt g = (Inl (ValueError (''Invalid graph: '' @ g)), rt))"
proof (intro conjI impI)
  assume "fst (is_started rt g)"
  then obtain ex where ex: "executors rt g = Some ex" "is_running ex"
    using is_started_True by blast
  have "consistent rt" by (rule reachable_consistent [OF assms])
  then have "graphs rt g \<noteq> None" using ex(1) unfolding consistent_def by auto
  then obtain gr where "graphs rt g = Some gr" by blast
  then show "start rt g = (Inl (ValueError (''Graph '' @ g @ '' is already started'')), rt)"
    using ex by (rule start_running)
next
  assume "executors rt g = None"
  then show "stop rt g = (Inl (ValueError (''Invalid graph: '' @ g)), rt)"
    by (simp add: stop_def)
qed

theorem start_stop_errors_witness:
  "reachable rt_running \<and> fst (is_started rt_running ''g'') \<and>
   start rt_running ''g'' = (Inl (ValueError ''Graph g is already started''), rt_running) \<and>
   reachable rt_graph \<and> executors rt_graph ''g'' = None \<and>
   stop rt_graph ''g'' = (Inl (ValueError ''Invalid graph: g''), rt_graph)"
proof -
  have a: "fst (is_started rt_running ''g'')"
    by (simp add: is_started_def rt_running_eval is_running_def)
  have b: "executors rt_graph ''g'' = None" by (simp add: rt_graph_eval)
  from start_stop_errors [OF reachable_rt_running, of "''g''"] a
  have "start rt_running ''g'' = (Inl (ValueError ''Graph g is already started''), rt_running)"
    by simp
  moreover from start_stop_errors [OF reachable_rt_graph, of "''g''"] b
  have "stop rt_graph ''g'' = (Inl (ValueError ''Invalid graph: g''), rt_graph)"
    by simp
  ultimately show ?thesis using a b reachable_rt_running reachable_rt_graph by blast
qed

text \<open>
  C1, as stated, fails on the kind of the exception: started twice, the runtime raises
  \<^verbatim>\<open>ValueError('Graph g is already started')\<close>, and stopped without an executor it
  raises \<^verbatim>\<open>ValueError('Invalid graph: g')\<close>; neither is a StateError.
\<close>

theorem start_stop_errors_counterexample:
  "fst (is_started rt_running ''g'') \<and>
   fst (start rt_running ''g'') = Inl (ValueError ''Graph g is already started'') \<and>
   \<not> is_StateError (fst (start rt_running ''g'')) \<and>
   executors rt_graph ''g'' = None \<and>
   fst (stop rt_graph ''g'') = Inl (ValueError ''Invalid graph: g'') \<and>
   \<not> is_StateError (fst (stop rt_graph ''g''))"
  by (simp add: is_started_def rt_running_eval rt_graph_eval is_running_def start_def
      stop_def Graph_new_def)

lemma stop_ok:
  "fst (stop rt g) = Inr () \<Longrightarrow>
     \<exists>ex. executors rt g = Some ex \<and> snd (stop rt g) = rt\<lparr>executors := (executors rt)(g := None)\<rparr>"
  by (cases "executors rt g"; cases "Executor_stop (the (executors rt g))")
     (auto simp: stop_def)

lemma start_new:
  assumes "executors rt g = None" "graphs rt g = Some gr"
  shows "start rt g =
     (Inr (), rt\<lparr>executors := (executors rt)
                   (g \<mapsto> \<lparr>ex_oid = next_oid rt, ex_graph = g_oid gr, ex_state = Running\<rparr>),
                next_oid := Suc (next_oid rt)\<rparr>)"
  using assms
  by (simp add: start_def Let_def Executor_new_def is_running_def execute_def)

lemma start_existing:
  assumes "executors rt g = Some ex"
  shows "(\<exists>ex'. executors (snd (start rt g)) g = Some ex' \<and> ex_oid ex' = ex_oid ex \<and>
               ex_graph ex' = ex_graph ex) \<and>
         next_oid (snd (start rt g)) = next_oid rt"
proof (cases "graphs rt g")
  case None
  then show ?thesis using assms by (simp add: start_def)
next
  case (Some gr)
  show ?thesis
  proof (cases "is_running ex")
    case True
    then show ?thesis using assms Some by (simp add: start_def)
  next
    case False
    show ?thesis
    proof (cases "execute ex")
      case (Inl e)
      then show ?thesis using assms Some False by (simp add: start_def)
    next
      case (Inr ex')
      then show ?thesis using assms Some False execute_ids [OF Inr] by (simp add: start_def)
    qed
  qed
qed

lemma rt_graph_fresh: "oids_fresh rt_graph"
  by (simp add: oids_fresh_def rt_graph_eval Graph_new_def)

text \<open>
  C2. A successful \<^verbatim>\<open>stop\<close> removes the executor entry of the graph id. \<^verbatim>\<open>start\<close> on an
  id without an entry constructs an executor, a new instance (its identity is that of no
  executor in the table, nor of the one just stopped), bound to the graph stored under the
  id at that moment, and runs it. \<^verbatim>\<open>start\<close> on an id that has an entry keeps that
  instance and constructs nothing.
\<close>

theorem executor_lifecycle:
  "(fst (stop rt g) = Inr () \<longrightarrow> executors (snd (stop rt g)) g = None) \<and>
   (oids_fresh rt \<and> executors rt g = None \<and> graphs rt g = Some gr \<longrightarrow>
      fst (start rt g) = Inr () \<and>
      executors (snd (start rt g)) g =
        Some \<lparr>ex_oid = next_oid rt, ex_graph = g_oid gr, ex_state = Running\<rparr> \<and>
      (\<forall>k ex. executors rt k = Some ex \<longrightarrow> ex_oid ex \<noteq> next_oid rt)) \<and>
   (\<forall>old. oids_fresh rt \<and> executors rt g = Some old \<and> fst (stop rt g) = Inr () \<and>
      graphs rt g = Some gr \<longrightarrow>
      fst (start (snd (stop rt g)) g) = Inr () \<and>
      executors (snd (start (snd (stop rt g)) g)) g =
        Some \<lparr>ex_oid = next_oid rt, ex_graph = g_oid gr, ex_state = Running\<rparr> \<and>
      ex_oid old \<noteq> next_oid rt) \<and>
   (\<forall>ex. executors rt g = Some ex \<longrightarrow>
      (\<exists>ex'. executors (snd (start rt g)) g = Some ex' \<and> ex_oid ex' = ex_oid ex \<and>
             ex_graph ex' = ex_graph ex) \<and>
      next_oid (snd (start rt g)) = next_oid rt)"
proof (intro conjI impI allI)
  assume "fst (stop rt g) = Inr ()"
  then show "executors (snd (stop rt g)) g = None" using stop_ok by fastforce
next
  assume a: "oids_fresh rt \<and> executors rt g = None \<and> graphs rt g = Some gr"
  then show "fst (start rt g) = Inr ()"
    and "executors (snd (start rt g)) g =
        Some \<lparr>ex_oid = next_oid rt, ex_graph = g_oid gr, ex_state = Running\<rparr>"
    by (simp_all add: start_new)
  fix k ex assume "executors rt k = Some ex"
  then show "ex_oid ex \<noteq> next_oid rt" using a fresh_executor by fastforce
next
  fix old
  assume a: "oids_fresh rt \<and> executors rt g = Some old \<and> fst (stop rt g) = Inr () \<and>
      graphs rt g = Some gr"
  then have s: "snd (stop rt g) = rt\<lparr>executors := (executors rt)(g := None)\<rparr>"
    using stop_ok by fastforce
  have n: "executors (snd (stop rt g)) g = None" "graphs (snd (stop rt g)) g = Some gr"
    "next_oid (snd (stop rt g)) = next_oid rt"
    using a by (simp_all add: s)
  show "fst (start (snd (stop rt g)) g) = Inr ()"
    and "executors (snd (start (snd (stop rt g)) g)) g =
        Some \<lparr>ex_oid = next_oid rt, ex_graph = g_oid gr, ex_state = Running\<rparr>"
    using start_new [OF n(1,2)] n(3) by simp_all
  show "ex_oid old \<noteq> next_oid rt" using a fresh_executor by fastforce
next
  fix ex assume "executors rt g = Some ex"
  then show "\<exists>ex'. executors (snd (start rt g)) g = Some ex' \<and> ex_oid ex' = ex_oid ex \<and>
             ex_graph ex' = ex_graph ex"
    and "next_oid (snd (start rt g)) = next_oid rt"
    using start_existing by blast+
qed

theorem executor_lifecycle_witness:
  "fst (stop rt_running ''g'') = Inr () \<and>
   executors (snd (stop rt_running ''g'')) ''g'' = None \<and>
   oids_fresh rt_graph \<and> executors rt_graph ''g'' = None \<and>
   graphs rt_graph ''g'' = Some (Graph_new 0 ''g'') \<and>
   executors (snd (start rt_graph ''g'')) ''g'' =
     Some \<lparr>ex_oid = 1, ex_graph = 0, ex_state = Running\<rparr> \<and>
   oids_fresh rt_running \<and>
   executors rt_running ''g'' = Some \<lparr>ex_oid = 1, ex_graph = 0, ex_state = Running\<rparr> \<and>
   graphs rt_running ''g'' = Some (Graph_new 0 ''g'') \<and>
   executors (snd (start (snd (stop rt_running ''g'')) ''g'')) ''g'' =
     Some \<lparr>ex_oid = 2, ex_graph = 0, ex_state = Running\<rparr> \<and>
   (\<exists>ex'. executors (snd (start rt_running ''g'')) ''g'' = Some ex' \<and> ex_oid ex' = 1)"
proof -
  have a: "executors rt_running ''g'' = Some \<lparr>ex_oid = 1, ex_graph = 0, ex_state = Running\<rparr>"
    and b: "graphs rt_running ''g'' = Some (Graph_new 0 ''g'')"
    and c: "next_oid rt_running = 2"
    by (simp_all add: rt_running_eval)
  have d: "fst (stop rt_running ''g'') = Inr ()"
    by (simp add: stop_def a Executor_stop_def)
  have e: "executors rt_graph ''g'' = None"
    and f: "graphs rt_graph ''g'' = Some (Graph_new 0 ''g'')"
    and g: "next_oid rt_graph = 1"
    by (simp_all add: rt_graph_eval)
  note t1 = executor_lifecycle [of rt_running "''g''" "Graph_new 0 ''g''"]
  note t2 = executor_lifecycle [of rt_graph "''g''" "Graph_new 0 ''g''"]
  have 1: "executors (snd (stop rt_running ''g'')) ''g'' = None"
    using t1 d by blast
  have 2: "executors (snd (start rt_graph ''g'')) ''g'' =
     Some \<lparr>ex_oid = 1, ex_graph = 0, ex_state = Running\<rparr>"
    using t2 rt_graph_fresh e f g by (simp add: Graph_new_def)
  have "oids_fresh rt_running \<and>
        executors rt_running ''g'' = Some \<lparr>ex_oid = 1, ex_graph = 0, ex_state = Running\<rparr> \<and>
        fst (stop rt_running ''g'') = Inr () \<and>
        graphs rt_running ''g'' = Some (Graph_new 0 ''g'')"
    using rt_running_fresh a b d by blast
  with t1 have "executors (snd (start (snd (stop rt_running ''g'')) ''g'')) ''g'' =
        Some \<lparr>ex_oid = next_oid rt_running, ex_graph = g_oid (Graph_new 0 ''g''),
              ex_state = Running\<rparr>"
    by blast
  then have 3: "executors (snd (start (snd (stop rt_running ''g'')) ''g'')) ''g'' =
     Some \<lparr>ex_oid = 2, ex_graph = 0, ex_state = Running\<rparr>"
    by (simp add: c Graph_new_def)
  have "\<exists>ex'. executors (snd (start rt_running ''g'')) ''g'' = Some ex' \<and>
          ex_oid ex' = ex_oid \<lparr>ex_oid = 1, ex_graph = 0, ex_state = Running\<rparr>"
    using t1 a by blast
  then have 4: "\<exists>ex'. executors (snd (start rt_running ''g'')) ''g'' = Some ex' \<and> ex_oid ex' = 1"
    by simp
  show ?thesis
    using 1 2 3 4 a b d e f rt_graph_fresh rt_running_fresh by blast
qed

subsection \<open>Unknown graph ids\<close>

lemma rt_registered_graphs: "graphs rt_registered = Map.empty"
  by (cases "create_component_spec (long_class_name Repeat) Repeat")
     (simp_all add: rt_registered_def register_component_def Let_def Runtime_init_def)

lemma rt_registered_Repeat:
  "\<exists>spec. components rt_registered ''pflow.components/Repeat'' =
            Some \<lparr>ce_class = Repeat, ce_spec = spec\<rparr>"
  by (simp add: rt_registered_def register_component_def Let_def Repeat_spec_eval
      Runtime_init_def) (simp add: Repeat_def long_class_name_def)

lemma rt_registered_other: "components rt_registered ''Nope'' = None"
  by (simp add: rt_registered_def register_component_def Let_def Repeat_spec_eval
      Runtime_init_def) (simp add: Repeat_def long_class_name_def)

text \<open>
  C10. For a graph id without a graph entry, \<^verbatim>\<open>add_node\<close> and \<^verbatim>\<open>remove_node\<close> first
  bind a new empty graph to the id (the state \<^verbatim>\<open>new_graph\<close> would give) and then
  operate on it, so that the entry exists afterwards even when they fail, while
  \<^verbatim>\<open>add_edge\<close>, \<^verbatim>\<open>remove_edge\<close>, \<^verbatim>\<open>add_iip\<close> and \<^verbatim>\<open>remove_iip\<close> fail with KeyError on
  the id and leave the state as it was.
\<close>

theorem unknown_graph_id:
  assumes "graphs rt g = None"
  shows "create_or_get_graph rt g = (Graph_new (next_oid rt) g, snd (new_graph rt g)) \<and>
    (components rt cid = None \<longrightarrow>
       add_node rt g n cid = (Inl (KeyError cid), snd (new_graph rt g))) \<and>
    (\<forall>e comp. components rt cid = Some e \<and> instantiate (ce_class e) n = Inr comp \<longrightarrow>
       fst (add_node rt g n cid) = Inr () \<and>
       graphs (snd (add_node rt g n cid)) g =
         Some ((Graph_new (next_oid rt) g)\<lparr>g_components := [comp]\<rparr>)) \<and>
    graphs (snd (add_node rt g n cid)) g \<noteq> None \<and>
    remove_node rt g n = (Inl (LookupError n), snd (new_graph rt g)) \<and>
    add_edge rt g src tgt = (Inl (KeyError g), rt) \<and>
    remove_edge rt g src tgt = (Inl (KeyError g), rt) \<and>
    add_iip rt g src d = (Inl (KeyError g), rt) \<and>
    remove_iip rt g src = (Inl (KeyError g), rt)"
proof -
  have cg: "create_or_get_graph rt g = (Graph_new (next_oid rt) g, snd (new_graph rt g))"
    using assms by (simp add: create_or_get_graph_def new_graph_def Let_def)
  have comps: "components (snd (new_graph rt g)) = components rt"
    by (simp add: new_graph_def)
  have gr: "graphs (snd (new_graph rt g)) g = Some (Graph_new (next_oid rt) g)"
    by (simp add: new_graph_def)
  have empty: "find_component_by_name (Graph_new (next_oid rt) g) x = None" for x
    by (simp add: find_component_by_name_def Graph_new_def)
  have 1: "components rt cid = None \<Longrightarrow>
       add_node rt g n cid = (Inl (KeyError cid), snd (new_graph rt g))"
    by (simp add: add_node_def cg comps)
  have 2: "fst (add_node rt g n cid) = Inr () \<and>
       graphs (snd (add_node rt g n cid)) g =
         Some ((Graph_new (next_oid rt) g)\<lparr>g_components := [comp]\<rparr>)"
    if "components rt cid = Some e \<and> instantiate (ce_class e) n = Inr comp" for e comp
    using that
    by (simp add: add_node_def cg comps Graph_add_component_def empty)
       (simp add: Graph_new_def)
  have 3: "graphs (snd (add_node rt g n cid)) g \<noteq> None"
  proof (cases "components rt cid")
    case None
    then show ?thesis using 1 gr by simp
  next
    case (Some e)
    show ?thesis
    proof (cases "instantiate (ce_class e) n")
      case (Inl err)
      then show ?thesis using Some gr by (simp add: add_node_def cg comps)
    next
      case (Inr comp)
      then show ?thesis using 2 Some by simp
    qed
  qed
  have 4: "remove_node rt g n = (Inl (LookupError n), snd (new_graph rt g))"
    by (simp add: remove_node_def cg Graph_remove_component_def empty)
  have 5: "add_edge rt g src tgt = (Inl (KeyError g), rt)"
    "remove_edge rt g src tgt = (Inl (KeyError g), rt)"
    "add_iip rt g src d = (Inl (KeyError g), rt)"
    "remove_iip rt g src = (Inl (KeyError g), rt)"
    using assms by (simp_all add: add_edge_def remove_edge_def add_iip_def remove_iip_def)
  show ?thesis using cg 1 2 3 4 5 by blast
qed

theorem unknown_graph_id_witness:
  "graphs rt_registered ''g'' = None \<and> components rt_registered ''Nope'' = None \<and>
   add_node rt_registered ''g'' ''n'' ''Nope'' =
     (Inl (KeyError ''Nope''), snd (new_graph rt_registered ''g'')) \<and>
   fst (add_node rt_registered ''g'' ''n'' ''pflow.components/Repeat'') = Inr () \<and>
   graphs (snd (add_node rt_registered ''g'' ''n'' ''pflow.components/Repeat'')) ''g'' \<noteq> None \<and>
   remove_node rt_registered ''g'' ''n'' =
     (Inl (LookupError ''n''), snd (new_graph rt_registered ''g'')) \<and>
   add_iip rt_registered ''g'' \<lparr>node = ''n'', port = ''IN''\<rparr> (VInt 1) =
     (Inl (KeyError ''g''), rt_registered)"
proof -
  have a: "graphs rt_registered ''g'' = None" by (simp add: rt_registered_graphs)
  obtain spec where e: "components rt_registered ''pflow.components/Repeat'' =
            Some \<lparr>ce_class = Repeat, ce_spec = spec\<rparr>"
    using rt_registered_Repeat by blast
  obtain comp where c: "instantiate Repeat ''n'' = Inr comp"
    by (simp add: instantiate_def Repeat_def)
  have ec: "components rt_registered ''pflow.components/Repeat'' =
              Some \<lparr>ce_class = Repeat, ce_spec = spec\<rparr> \<and>
            instantiate (ce_class \<lparr>ce_class = Repeat, ce_spec = spec\<rparr>) ''n'' = Inr comp"
    using e c by simp
  from unknown_graph_id [OF a, of "''Nope''" "''n''"
        "\<lparr>node = ''n'', port = ''IN''\<rparr>" "\<lparr>node = ''n'', port = ''IN''\<rparr>" "VInt 1"]
    rt_registered_other
  have 1: "add_node rt_registered ''g'' ''n'' ''Nope'' =
             (Inl (KeyError ''Nope''), snd (new_graph rt_registered ''g'')) \<and>
           remove_node rt_registered ''g'' ''n'' =
             (Inl (LookupError ''n''), snd (new_graph rt_registered ''g'')) \<and>
           add_iip rt_registered ''g'' \<lparr>node = ''n'', port = ''IN''\<rparr> (VInt 1) =
             (Inl (KeyError ''g''), rt_registered)"
    by blast
  from unknown_graph_id [OF a, of "''pflow.components/Repeat''" "''n''"
        "\<lparr>node = ''n'', port = ''IN''\<rparr>" "\<lparr>node = ''n'', port = ''IN''\<rparr>" "VInt 1"] ec
  have 2: "fst (add_node rt_registered ''g'' ''n'' ''pflow.components/Repeat'') = Inr () \<and>
     graphs (snd (add_node rt_registered ''g'' ''n'' ''pflow.components/Repeat'')) ''g'' \<noteq> None"
    by blast
  show ?thesis using a rt_registered_other 1 2 by blast
qed


subsection \<open>Initial packets and guarded disconnects\<close>

lemma find_map_same:
  assumes "\<And>x. P (k x) = P x"
  shows "find P (map k xs) = map_option k (find P xs)"
  using assms by (induction xs) simp_all

lemma find_holds: "find P xs = Some x \<Longrightarrow> P x"
  by (induction xs) (auto split: if_splits)

lemma get_port_apply:
  assumes names: "\<And>r q. p_name (h r q) = p_name q"
  shows "get_port (apply_ports h gr) ref = map_option (h ref) (get_port gr ref)"
proof -
  define k :: "component \<Rightarrow> component" where "k = (\<lambda>c. c\<lparr>c_inputs := map (\<lambda>p. h (InputPort (c_name c) (p_name p)) p) (c_inputs c),
                  c_outputs := map (\<lambda>p. h (OutputPort (c_name c) (p_name p)) p) (c_outputs c)\<rparr>)"
  have fc: "find_component_by_name (apply_ports h gr) n =
              map_option k (find_component_by_name gr n)" for n
    unfolding find_component_by_name_def apply_ports_def k_def [symmetric]
    by (simp add: find_map_same k_def)
  have cn: "c_name c = n" if "find_component_by_name gr n = Some c" for c n
    using find_holds [OF that [unfolded find_component_by_name_def]] .
  have lp: "lookup_port (map (\<lambda>p. h (R (p_name p)) p) ps) x =
              map_option (h (R x)) (lookup_port ps x)" for R ps x
  proof -
    have "lookup_port (map (\<lambda>p. h (R (p_name p)) p) ps) x =
            map_option (\<lambda>p. h (R (p_name p)) p) (lookup_port ps x)"
      unfolding lookup_port_def by (rule find_map_same) (simp add: names)
    also have "\<dots> = map_option (h (R x)) (lookup_port ps x)"
    proof (cases "lookup_port ps x")
      case None then show ?thesis by simp
    next
      case (Some p)
      then have "p_name p = x" unfolding lookup_port_def by (rule find_holds)
      then show ?thesis using Some by simp
    qed
    finally show ?thesis .
  qed
  show ?thesis
  proof (cases ref)
    case (InputPort n x)
    show ?thesis
    proof (cases "find_component_by_name gr n")
      case None
      then show ?thesis using InputPort by (simp add: get_port_def fc)
    next
      case (Some c)
      then show ?thesis using InputPort cn [OF Some] lp [of "InputPort n"]
        by (simp add: get_port_def fc k_def)
    qed
  next
    case (OutputPort n x)
    show ?thesis
    proof (cases "find_component_by_name gr n")
      case None
      then show ?thesis using OutputPort by (simp add: get_port_def fc)
    next
      case (Some c)
      then show ?thesis using OutputPort cn [OF Some] lp [of "OutputPort n"]
        by (simp add: get_port_def fc k_def)
    qed
  qed
qed

lemma get_port_find_input:
  "get_port gr (input_ref a) = Some p \<Longrightarrow> find_input_port gr a = Inr p"
  by (auto simp: find_input_port_def get_port_def input_ref_def split: option.splits)

lemma Graph_disconnect_attached:
  assumes "get_port gr ref = Some p" "has_attachment p"
  shows "\<exists>g1. Graph_disconnect gr ref = Inr g1 \<and>
           get_port g1 ref = Some (p\<lparr>p_peers := [], p_iip := None\<rparr>) \<and>
           (\<forall>r x. is_input r \<noteq> is_input ref \<and> get_port g1 r = Some x \<longrightarrow>
                  endpoint_of ref \<notin> set (p_peers x))"
proof -
  define h :: "port_ref \<Rightarrow> port \<Rightarrow> port" where "h = (\<lambda>r q. if r = ref
                             then q\<lparr>p_peers := [], p_iip := None\<rparr>
                             else if is_input r \<noteq> is_input ref
                             then q\<lparr>p_peers := removeAll (endpoint_of ref) (p_peers q)\<rparr>
                             else q)"
  have d: "Graph_disconnect gr ref = Inr (apply_ports h gr)"
    using assms by (simp add: Graph_disconnect_def h_def)
  have gp: "get_port (apply_ports h gr) r = map_option (h r) (get_port gr r)" for r
    by (rule get_port_apply) (simp add: h_def)
  have 1: "get_port (apply_ports h gr) ref = Some (p\<lparr>p_peers := [], p_iip := None\<rparr>)"
    unfolding gp using assms(1) by (simp add: h_def)
  have 2: "endpoint_of ref \<notin> set (p_peers x)"
    if "is_input r \<noteq> is_input ref \<and> get_port (apply_ports h gr) r = Some x" for r x
  proof -
    from that obtain x0 where "get_port gr r = Some x0" "x = h r x0"
      by (auto simp: gp)
    moreover have "r \<noteq> ref" using that by auto
    ultimately show ?thesis using that by (simp add: h_def)
  qed
  show ?thesis using d 1 2 by blast
qed

lemma Graph_set_initial_packet_free:
  assumes "get_port gr ref = Some p" "\<not> is_connected p"
  shows "\<exists>g1. Graph_set_initial_packet gr ref v = Inr g1 \<and>
           get_port g1 ref = Some (p\<lparr>p_iip := Some v\<rparr>) \<and>
           (\<forall>r. r \<noteq> ref \<longrightarrow> get_port g1 r = get_port gr r)"
proof -
  define h :: "port_ref \<Rightarrow> port \<Rightarrow> port"
    where "h = (\<lambda>r q. if r = ref then q\<lparr>p_iip := Some v\<rparr> else q)"
  have d: "Graph_set_initial_packet gr ref v = Inr (apply_ports h gr)"
    using assms by (simp add: Graph_set_initial_packet_def h_def)
  have gp: "get_port (apply_ports h gr) r = map_option (h r) (get_port gr r)" for r
    by (rule get_port_apply) (simp add: h_def)
  have 1: "get_port (apply_ports h gr) ref = Some (p\<lparr>p_iip := Some v\<rparr>)"
    unfolding gp using assms(1) by (simp add: h_def)
  have 2: "get_port (apply_ports h gr) r = get_port gr r" if "r \<noteq> ref" for r
    unfolding gp using that by (cases "get_port gr r") (simp_all add: h_def)
  show ?thesis using d 1 2 by blast
qed


lemma new_calls_commit [simp]: "new_calls rt (snd (commit rt g (r, gr, cs))) = cs"
  by (simp add: new_calls_def commit_def)

lemma new_calls_same [simp]: "new_calls rt rt = []"
  by (simp add: new_calls_def)

lemma calls_shape:
  assumes "\<exists>out. res = commit rt g out \<and> ok_outcome gr out"
  shows "guarded (new_calls rt (snd res)) \<and>
         disconnect_calls (snd res) = disconnect_calls rt @ new_calls rt (snd res)"
proof -
  obtain r gr' cs where "res = commit rt g (r, gr', cs)" "ok_outcome gr (r, gr', cs)"
    using assms by (metis prod_cases3)
  then show ?thesis by (simp add: ok_outcome_def)
qed

lemma rt_registered_eval:
  "rt_registered = Runtime_init\<lparr>components :=
      [''pflow.components/Repeat'' \<mapsto>
         \<lparr>ce_class = Repeat,
          ce_spec = \<lparr>cs_name = ''pflow.components/Repeat'',
            cs_description = ''Repeats its input'', cs_subgraph = False,
            cs_inPorts = [inport_entry (new_port in_decl), inport_entry (new_port opt_decl)],
            cs_outPorts = [outport_entry (new_port out_decl),
                           outport_entry (new_port err_decl)]\<rparr>\<rparr>]\<rparr>"
  by (simp add: rt_registered_def register_component_def Let_def Repeat_spec_eval
      Runtime_init_def) (simp add: Repeat_def long_class_name_def)

lemma example_port_names [simp]:
  "p_name (new_port in_decl) = ''IN''" "p_name (new_port opt_decl) = ''OPT''"
  "p_name (new_port out_decl) = ''OUT''" "p_name (new_port err_decl) = ''ERR''"
  "p_name port_out_a = ''OUT''" "p_name port_in_b = ''IN''"
  by (simp_all add: new_port_def in_decl_def opt_decl_def out_decl_def err_decl_def
      port_out_a_def port_in_b_def)

lemma new_port_unattached [simp]:
  "p_peers (new_port d) = []" "p_iip (new_port d) = None"
  "p_array (new_port in_decl) = False" "p_array (new_port out_decl) = False"
  by (simp_all add: new_port_def in_decl_def out_decl_def)

lemma rt_wired_graph: "graphs rt_wired ''g'' = Some wired_graph"
  by (simp add: rt_wired_def rt_registered_eval add_node_def create_or_get_graph_def
      Runtime_init_def Let_def instantiate_def Repeat_def Graph_add_component_def
      find_component_by_name_def Graph_new_def commit_def add_edge_def find_output_port_def
      find_input_port_def lookup_port_def a_out_def b_in_def lift_graph_def Graph_connect_def
      get_port_def output_ref_def input_ref_def has_attachment_def apply_ports_def
      wired_graph_def port_out_a_def port_in_b_def)

lemma reachable_rt_wired: "reachable rt_wired"
  unfolding rt_wired_def rt_registered_def
  by (intro reachable.add_edge reachable.add_node reachable.register_component reachable.init)

lemma wired_find_b_in: "find_input_port wired_graph b_in = Inr port_in_b"
  by (simp add: find_input_port_def find_component_by_name_def wired_graph_def b_in_def
      lookup_port_def)

lemma wired_connected: "is_connected port_in_b"
  by (simp add: is_connected_def port_in_b_def)

lemma wired_remove_edge_calls:
  "new_calls rt_wired (snd (remove_edge rt_wired ''g'' a_out b_in)) =
     [(wired_graph, OutputPort ''a'' ''OUT'')]"
  by (simp add: remove_edge_def rt_wired_graph)
     (simp add: find_output_port_def find_input_port_def find_component_by_name_def
      wired_graph_def a_out_def b_in_def lookup_port_def is_connected_def port_out_a_def
      port_in_b_def call_disconnect_def Graph_disconnect_def get_port_def output_ref_def
      input_ref_def has_attachment_def apply_ports_def)

text \<open>
  C4. Every invocation of \<^verbatim>\<open>graph.disconnect\<close> that \<^verbatim>\<open>remove_edge\<close>, \<^verbatim>\<open>add_iip\<close> or
  \<^verbatim>\<open>remove_iip\<close> makes is entered into the history, which only grows, and each of them
  is guarded: at the moment of the call the port existed in the graph, its
  \<^verbatim>\<open>is_connected()\<close> was true and it had an attachment. So none of these methods
  invokes \<^verbatim>\<open>graph.disconnect\<close> on a port without an attachment.
\<close>

theorem disconnect_guarded:
  "guarded (new_calls rt (snd (remove_edge rt g src tgt))) \<and>
   disconnect_calls (snd (remove_edge rt g src tgt)) =
     disconnect_calls rt @ new_calls rt (snd (remove_edge rt g src tgt)) \<and>
   guarded (new_calls rt (snd (add_iip rt g src d))) \<and>
   disconnect_calls (snd (add_iip rt g src d)) =
     disconnect_calls rt @ new_calls rt (snd (add_iip rt g src d)) \<and>
   guarded (new_calls rt (snd (remove_iip rt g src))) \<and>
   disconnect_calls (snd (remove_iip rt g src)) =
     disconnect_calls rt @ new_calls rt (snd (remove_iip rt g src))"
proof (cases "graphs rt g")
  case None
  then show ?thesis by (simp add: remove_edge_def add_iip_def remove_iip_def)
next
  case (Some gr)
  show ?thesis
    using calls_shape [OF remove_edge_shape [OF Some, of src tgt]]
      calls_shape [OF add_iip_shape [OF Some, of src d]]
      calls_shape [OF remove_iip_shape [OF Some, of src]]
    by blast
qed

theorem disconnect_guarded_witness:
  "new_calls rt_wired (snd (remove_edge rt_wired ''g'' a_out b_in)) =
     [(wired_graph, OutputPort ''a'' ''OUT'')] \<and>
   guarded [(wired_graph, OutputPort ''a'' ''OUT'')] \<and>
   get_port wired_graph (OutputPort ''a'' ''OUT'') = Some port_out_a \<and>
   is_connected port_out_a"
proof -
  have "guarded (new_calls rt_wired (snd (remove_edge rt_wired ''g'' a_out b_in)))"
    using disconnect_guarded [of rt_wired "''g''" a_out b_in] by blast
  then have "guarded [(wired_graph, OutputPort ''a'' ''OUT'')]"
    by (simp add: wired_remove_edge_calls)
  moreover have "get_port wired_graph (OutputPort ''a'' ''OUT'') = Some port_out_a"
    by (simp add: get_port_def find_component_by_name_def wired_graph_def lookup_port_def)
  moreover have "is_connected port_out_a"
    by (simp add: is_connected_def port_out_a_def)
  ultimately show ?thesis using wired_remove_edge_calls by blast
qed

lemma add_iip_returns:
  assumes "fst (add_iip rt g src d) = Inr ()"
  shows "\<exists>gr p. graphs rt g = Some gr \<and> find_input_port gr src = Inr p"
proof (cases "graphs rt g")
  case None
  then show ?thesis using assms by (simp add: add_iip_def)
next
  case (Some gr)
  show ?thesis
  proof (cases "find_input_port gr src")
    case (Inl e)
    then show ?thesis using assms Some by (simp add: add_iip_def)
  next
    case (Inr p)
    then show ?thesis using Some by blast
  qed
qed

text \<open>
  C3. \<^verbatim>\<open>add_iip\<close> on an input port that exists in a known graph succeeds; it invokes
  \<^verbatim>\<open>graph.disconnect\<close> on the port exactly when the port carries a live connection, and
  sets the initial packet afterwards, on the graph the disconnect left. When it returns,
  the port carries the packet and no live connection, and, after a disconnect, no output
  port lists the port as its peer any more. (A call that returns has found the graph and
  the port: in every other case \<^verbatim>\<open>add_iip\<close> raises.)
\<close>

theorem add_iip_exclusive:
  assumes gr: "graphs rt g = Some gr" and p: "find_input_port gr src = Inr p"
  shows "fst (add_iip rt g src d) = Inr () \<and>
     (\<exists>gr' p'. graphs (snd (add_iip rt g src d)) g = Some gr' \<and>
        find_input_port gr' src = Inr p' \<and> p_iip p' = Some d \<and> \<not> is_connected p' \<and>
        (is_connected p \<longrightarrow>
           (\<exists>g1. Graph_disconnect gr (input_ref src) = Inr g1 \<and>
                 Graph_set_initial_packet g1 (input_ref src) d = Inr gr') \<and>
           (\<forall>r x. \<not> is_input r \<and> get_port gr' r = Some x \<longrightarrow>
                  (node src, port src) \<notin> set (p_peers x))) \<and>
        (\<not> is_connected p \<longrightarrow> Graph_set_initial_packet gr (input_ref src) d = Inr gr')) \<and>
     new_calls rt (snd (add_iip rt g src d)) =
       (if is_connected p then [(gr, input_ref src)] else [])"
proof -
  let ?ref = "input_ref src"
  have gp: "get_port gr ?ref = Some p" by (rule find_input_port_get [OF p])
  have ep: "endpoint_of ?ref = (node src, port src)" by (simp add: input_ref_def)
  have inp: "is_input ?ref" by (simp add: input_ref_def)
  show ?thesis
  proof (cases "is_connected p")
    case True
    obtain g1 where g1: "Graph_disconnect gr ?ref = Inr g1"
      and g1p: "get_port g1 ?ref = Some (p\<lparr>p_peers := [], p_iip := None\<rparr>)"
      and g1o: "\<And>r x. is_input r \<noteq> is_input ?ref \<and> get_port g1 r = Some x \<Longrightarrow>
                  endpoint_of ?ref \<notin> set (p_peers x)"
      using Graph_disconnect_attached [OF gp is_connected_attached [OF True]] by blast
    have nc: "\<not> is_connected (p\<lparr>p_peers := [], p_iip := None\<rparr>)"
      by (simp add: is_connected_def)
    obtain g2 where g2: "Graph_set_initial_packet g1 ?ref d = Inr g2"
      and g2p: "get_port g2 ?ref = Some (p\<lparr>p_peers := [], p_iip := None\<rparr>\<lparr>p_iip := Some d\<rparr>)"
      and g2o: "\<And>r. r \<noteq> ?ref \<Longrightarrow> get_port g2 r = get_port g1 r"
      using Graph_set_initial_packet_free [OF g1p nc, of d] by blast
    have res: "add_iip rt g src d = commit rt g (Inr (), g2, [(gr, ?ref)])"
      using gr p True g1 g2 by (simp add: add_iip_def call_disconnect_def lift_graph_def)
    have others: "(node src, port src) \<notin> set (p_peers x)"
      if "\<not> is_input r \<and> get_port g2 r = Some x" for r x
    proof -
      have "r \<noteq> ?ref" using that inp by auto
      then have "get_port g1 r = Some x" using that g2o by simp
      then show ?thesis using g1o [of r x] that inp ep by simp
    qed
    have "find_input_port g2 src = Inr (p\<lparr>p_peers := [], p_iip := Some d\<rparr>)"
      using get_port_find_input [OF g2p] by simp
    moreover have "graphs (snd (add_iip rt g src d)) g = Some g2"
      by (simp add: res)
    ultimately have "\<exists>gr' p'. graphs (snd (add_iip rt g src d)) g = Some gr' \<and>
        find_input_port gr' src = Inr p' \<and> p_iip p' = Some d \<and> \<not> is_connected p' \<and>
        (is_connected p \<longrightarrow>
           (\<exists>g1. Graph_disconnect gr (input_ref src) = Inr g1 \<and>
                 Graph_set_initial_packet g1 (input_ref src) d = Inr gr') \<and>
           (\<forall>r x. \<not> is_input r \<and> get_port gr' r = Some x \<longrightarrow>
                  (node src, port src) \<notin> set (p_peers x))) \<and>
        (\<not> is_connected p \<longrightarrow> Graph_set_initial_packet gr (input_ref src) d = Inr gr')"
      using True g1 g2 others
      by (intro exI [of _ g2] exI [of _ "p\<lparr>p_peers := [], p_iip := Some d\<rparr>"])
         (simp add: is_connected_def)
    then show ?thesis using True by (simp add: res)
  next
    case False
    obtain g2 where g2: "Graph_set_initial_packet gr ?ref d = Inr g2"
      and g2p: "get_port g2 ?ref = Some (p\<lparr>p_iip := Some d\<rparr>)"
      using Graph_set_initial_packet_free [OF gp False, of d] by blast
    have res: "add_iip rt g src d = commit rt g (Inr (), g2, [])"
      using gr p False g2 by (simp add: add_iip_def lift_graph_def)
    have "find_input_port g2 src = Inr (p\<lparr>p_iip := Some d\<rparr>)"
      by (rule get_port_find_input [OF g2p])
    moreover have "graphs (snd (add_iip rt g src d)) g = Some g2"
      by (simp add: res)
    ultimately have "\<exists>gr' p'. graphs (snd (add_iip rt g src d)) g = Some gr' \<and>
        find_input_port gr' src = Inr p' \<and> p_iip p' = Some d \<and> \<not> is_connected p' \<and>
        (is_connected p \<longrightarrow>
           (\<exists>g1. Graph_disconnect gr (input_ref src) = Inr g1 \<and>
                 Graph_set_initial_packet g1 (input_ref src) d = Inr gr') \<and>
           (\<forall>r x. \<not> is_input r \<and> get_port gr' r = Some x \<longrightarrow>
                  (node src, port src) \<notin> set (p_peers x))) \<and>
        (\<not> is_connected p \<longrightarrow> Graph_set_initial_packet gr (input_ref src) d = Inr gr')"
      using False g2
      by (intro exI [of _ g2] exI [of _ "p\<lparr>p_iip := Some d\<rparr>"])
         (simp add: is_connected_def)
    then show ?thesis using False by (simp add: res)
  qed
qed

theorem add_iip_exclusive_witness:
  "graphs rt_wired ''g'' = Some wired_graph \<and>
   find_input_port wired_graph b_in = Inr port_in_b \<and> is_connected port_in_b \<and>
   fst (add_iip rt_wired ''g'' b_in (VStr ''hello'')) = Inr () \<and>
   (\<exists>gr' p'. graphs (snd (add_iip rt_wired ''g'' b_in (VStr ''hello''))) ''g'' = Some gr' \<and>
      find_input_port gr' b_in = Inr p' \<and> p_iip p' = Some (VStr ''hello'') \<and>
      \<not> is_connected p') \<and>
   new_calls rt_wired (snd (add_iip rt_wired ''g'' b_in (VStr ''hello''))) =
     [(wired_graph, InputPort ''b'' ''IN'')]"
proof -
  note t = add_iip_exclusive [OF rt_wired_graph wired_find_b_in, of "VStr ''hello''"]
  have 1: "fst (add_iip rt_wired ''g'' b_in (VStr ''hello'')) = Inr ()"
    using t by blast
  have 2: "\<exists>gr' p'. graphs (snd (add_iip rt_wired ''g'' b_in (VStr ''hello''))) ''g'' = Some gr' \<and>
      find_input_port gr' b_in = Inr p' \<and> p_iip p' = Some (VStr ''hello'') \<and>
      \<not> is_connected p'"
    using t by blast
  have 3: "new_calls rt_wired (snd (add_iip rt_wired ''g'' b_in (VStr ''hello''))) =
     [(wired_graph, InputPort ''b'' ''IN'')]"
    using t wired_connected by (simp add: input_ref_def b_in_def)
  show ?thesis using rt_wired_graph wired_find_b_in wired_connected 1 2 3 by blast
qed


subsection \<open>The started query\<close>

lemma executors_shape:
  assumes "\<exists>out. res = commit rt g out \<and> ok_outcome gr out"
  shows "executors (snd res) = executors rt"
proof -
  obtain r gr' cs where "res = commit rt g (r, gr', cs)"
    using assms by (metis prod_cases3)
  then show ?thesis by simp
qed

lemma executors_graph_ops:
  "executors (snd (add_edge rt g src tgt)) = executors rt"
  "executors (snd (remove_edge rt g src tgt)) = executors rt"
  "executors (snd (add_iip rt g src d)) = executors rt"
  "executors (snd (remove_iip rt g src)) = executors rt"
proof -
  show "executors (snd (add_edge rt g src tgt)) = executors rt"
  proof (cases "graphs rt g")
    case None then show ?thesis by (simp add: add_edge_def)
  next
    case (Some gr) show ?thesis by (rule executors_shape [OF add_edge_shape [OF Some]])
  qed
  show "executors (snd (remove_edge rt g src tgt)) = executors rt"
  proof (cases "graphs rt g")
    case None then show ?thesis by (simp add: remove_edge_def)
  next
    case (Some gr) show ?thesis by (rule executors_shape [OF remove_edge_shape [OF Some]])
  qed
  show "executors (snd (add_iip rt g src d)) = executors rt"
  proof (cases "graphs rt g")
    case None then show ?thesis by (simp add: add_iip_def)
  next
    case (Some gr) show ?thesis by (rule executors_shape [OF add_iip_shape [OF Some]])
  qed
  show "executors (snd (remove_iip rt g src)) = executors rt"
  proof (cases "graphs rt g")
    case None then show ?thesis by (simp add: remove_iip_def)
  next
    case (Some gr) show ?thesis by (rule executors_shape [OF remove_iip_shape [OF Some]])
  qed
qed

lemma executors_create_or_get:
  "executors (snd (create_or_get_graph rt g)) = executors rt"
  by (cases "graphs rt g") (simp_all add: create_or_get_graph_def Let_def)

lemma executors_add_node: "executors (snd (add_node rt g n cid)) = executors rt"
proof -
  obtain gr rt1 where cg: "create_or_get_graph rt g = (gr, rt1)"
    by (cases "create_or_get_graph rt g")
  then have e: "executors rt1 = executors rt"
    using executors_create_or_get [of rt g] by simp
  show ?thesis
  proof (cases "components rt1 cid")
    case None
    then show ?thesis using cg e by (simp add: add_node_def)
  next
    case (Some en)
    then show ?thesis using cg e
      by (cases "instantiate (ce_class en) n";
          cases "Graph_add_component gr (projr (instantiate (ce_class en) n))")
         (simp_all add: add_node_def)
  qed
qed

lemma executors_remove_node: "executors (snd (remove_node rt g n)) = executors rt"
proof -
  obtain gr rt1 where cg: "create_or_get_graph rt g = (gr, rt1)"
    by (cases "create_or_get_graph rt g")
  then have e: "executors rt1 = executors rt"
    using executors_create_or_get [of rt g] by simp
  show ?thesis using cg e
    by (cases "Graph_remove_component gr n") (simp_all add: remove_node_def)
qed

lemma executors_register: "executors (snd (register_component rt c ov)) = executors rt"
proof (cases c)
  case (Class cls)
  then show ?thesis
    by (cases "create_component_spec (long_class_name cls) cls")
       (simp_all add: register_component_def Let_def)
next
  case (NonClass r)
  then show ?thesis by (simp add: register_component_def)
qed

lemma executors_stop: "executors rt g = None \<Longrightarrow> executors (snd (stop rt g')) g = None"
  by (cases "executors rt g'"; cases "Executor_stop (the (executors rt g'))")
     (simp_all add: stop_def)

lemma executors_start_other:
  assumes "g' \<noteq> g" shows "executors (snd (start rt g')) g = executors rt g"
proof (cases "graphs rt g'")
  case None
  then show ?thesis by (simp add: start_def)
next
  case (Some gr)
  show ?thesis
  proof (cases "executors rt g'")
    case None
    then show ?thesis using Some assms
      by (simp add: start_def Let_def Executor_new_def is_running_def execute_def)
  next
    case ex: (Some ex)
    then show ?thesis using Some assms
      by (cases "is_running ex"; cases "execute ex") (simp_all add: start_def)
  qed
qed

lemma never_started_no_executor: "never_started g rt \<Longrightarrow> executors rt g = None"
proof (induction rule: never_started.induct)
  case init
  then show ?case by (simp add: Runtime_init_def)
qed (simp_all add: executors_register executors_start_other executors_stop new_graph_def
      executors_add_node executors_remove_node executors_graph_ops)

text \<open>
  C7. \<^verbatim>\<open>is_started\<close> returns the runtime state as it found it; it is false when the graph
  id has no executor entry, as in every state reached without a \<^verbatim>\<open>start\<close> of that id
  (the initial runtime among them) and after a successful \<^verbatim>\<open>stop\<close>,
  and otherwise it is the executor's \<^verbatim>\<open>is_running()\<close>.
\<close>

theorem is_started_query:
  "snd (is_started rt g) = rt \<and>
   (executors rt g = None \<longrightarrow> fst (is_started rt g) = False) \<and>
   (\<forall>ex. executors rt g = Some ex \<longrightarrow> fst (is_started rt g) = is_running ex) \<and>
   fst (is_started Runtime_init g) = False \<and>
   (never_started g rt \<longrightarrow> fst (is_started rt g) = False) \<and>
   (fst (stop rt g) = Inr () \<longrightarrow> fst (is_started (snd (stop rt g)) g) = False)"
proof -
  have "never_started g rt \<longrightarrow> fst (is_started rt g) = False"
    using never_started_no_executor [of g rt] by (auto simp: is_started_def)
  moreover have "snd (is_started rt g) = rt \<and>
     (executors rt g = None \<longrightarrow> fst (is_started rt g) = False) \<and>
     (\<forall>ex. executors rt g = Some ex \<longrightarrow> fst (is_started rt g) = is_running ex) \<and>
     fst (is_started Runtime_init g) = False \<and>
     (fst (stop rt g) = Inr () \<longrightarrow> fst (is_started (snd (stop rt g)) g) = False)"
    by (auto simp: is_started_def Runtime_init_def stop_def split: option.splits sum.splits)
  ultimately show ?thesis by blast
qed

theorem is_started_query_witness:
  "never_started ''g'' rt_graph \<and>
   executors rt_graph ''g'' = None \<and> fst (is_started rt_graph ''g'') = False \<and>
   executors rt_running ''g'' = Some \<lparr>ex_oid = Suc 0, ex_graph = 0, ex_state = Running\<rparr> \<and>
   fst (is_started rt_running ''g'') = True \<and>
   snd (is_started rt_running ''g'') = rt_running \<and>
   fst (stop rt_running ''g'') = Inr () \<and>
   fst (is_started (snd (stop rt_running ''g'')) ''g'') = False"
proof -
  have a: "executors rt_graph ''g'' = None" by (simp add: rt_graph_eval)
  have b: "executors rt_running ''g'' =
             Some \<lparr>ex_oid = Suc 0, ex_graph = 0, ex_state = Running\<rparr>"
    by (simp add: rt_running_eval)
  have c: "fst (stop rt_running ''g'') = Inr ()"
    by (simp add: stop_def b Executor_stop_def)
  from is_started_query [of rt_graph "''g''"] a
  have "fst (is_started rt_graph ''g'') = False" by blast
  moreover from is_started_query [of rt_running "''g''"] b c
  have "fst (is_started rt_running ''g'') = True \<and>
        snd (is_started rt_running ''g'') = rt_running \<and>
        fst (is_started (snd (stop rt_running ''g'')) ''g'') = False"
    by (simp add: is_running_def)
  moreover have "never_started ''g'' rt_graph"
    unfolding rt_graph_def by (intro never_started.new_graph never_started.init)
  ultimately show ?thesis using a b c by blast
qed

end
